theory Spec2Isabelle
  imports Complex_Main "HOL-Library.Sublist"
begin

section \<open>The agelum document store: data model\<close>

text \<open>
  The development follows the document-store module of the repository (the server that
  offers the tools \<open>create\<close>, \<open>move\<close> and \<open>get\<close>): its string helpers, the file-name
  codec, the discovery of the repository root, and the three tool handlers, run against
  an explicit model of the file system.
\<close>

datatype TaskState = Pending | Doing | Done

datatype DocumentType = Task | Epic | Plan | Doc | Command | Skill | Agent | Context

text \<open>
  Every \<open>throw new Error(...)\<close> of the module is one constructor; the names are those of
  the specification where it has one. An exception of \<open>node:fs\<close> is \<open>FsError\<close>.
\<close>

datatype errno = EEXIST | ENOTDIR | ENOENT | EISDIR | ENOTEMPTY | EINVAL | ENAMETOOLONG

type_synonym path = "string list"

datatype error =
    InvalidPriority  \<comment> \<open>priority must be a non-negative number\<close>
  | InvalidTitle  \<comment> \<open>title is required\<close>
  | PriorityRequired  \<comment> \<open>priority is required for task\<close>
  | StoryPointsRequired  \<comment> \<open>storyPoints is required for task\<close>
  | StateRequired  \<comment> \<open>state is required for task\<close>
  | RootNotFound  \<comment> \<open>Could not find repository root\<close>
  | AlreadyExists path  \<comment> \<open>File already exists: path\<close>
  | InvalidTransition  \<comment> \<open>fromState and toState must be different\<close>
  | TitleRequired  \<comment> \<open>title is required if fileName is not provided\<close>
  | SourceNotFound path  \<comment> \<open>Source file not found: path\<close>
  | TargetExists path  \<comment> \<open>Target file already exists: path\<close>
  | UnresolvableFileName  \<comment> \<open>Could not resolve filename from arguments\<close>
  | UnknownOperation string  \<comment> \<open>Unknown tool: name\<close>
  | FsError errno

subsection \<open>Numbers\<close>

text \<open>
  A JavaScript number is a finite value, \<open>NaN\<close> or an infinity. The finite values are
  taken as rationals, which contain every finite double. Negative zero is not told apart
  from zero: the module never does (\<open>-0 < 0\<close> is false and \<open>String(-0)\<close> is \<open>"0"\<close>).
\<close>

datatype jsnum = Num rat | NaN | PosInf | NegInf

fun isFinite :: "jsnum \<Rightarrow> bool" where
  "isFinite (Num q) = True"
| "isFinite v = False"

fun lt_zero :: "jsnum \<Rightarrow> bool" where
  "lt_zero (Num q) = (q < 0)"
| "lt_zero NegInf = True"
| "lt_zero v = False"

text \<open>\<open>Math.trunc\<close>: rounding towards zero.\<close>

definition trunc_rat :: "rat \<Rightarrow> int" where
  "trunc_rat q = (if 0 \<le> q then \<lfloor>q\<rfloor> else \<lceil>q\<rceil>)"

fun Math_trunc :: "jsnum \<Rightarrow> jsnum" where
  "Math_trunc (Num q) = Num (of_int (trunc_rat q))"
| "Math_trunc v = v"

fun isInteger :: "jsnum \<Rightarrow> bool" where
  "isInteger (Num q) = (of_int \<lfloor>q\<rfloor> = q)"
| "isInteger v = False"

definition digit_char :: "nat \<Rightarrow> char" where
  "digit_char d = (''0123456789'' ! d)"

fun decimal :: "nat \<Rightarrow> string" where
  "decimal n = (if n < 10 then [digit_char n] else decimal (n div 10) @ [digit_char (n mod 10)])"

declare decimal.simps [simp del]

definition MAX_SAFE_INTEGER :: int where
  "MAX_SAFE_INTEGER = 2 ^ 53 - 1"

definition safe_integer :: "rat \<Rightarrow> bool" where
  "safe_integer q = (of_int \<lfloor>q\<rfloor> = q \<and> \<bar>\<lfloor>q\<rfloor>\<bar> \<le> MAX_SAFE_INTEGER)"

text \<open>
  \<open>String(value)\<close> on a number. A safe integer is printed as its decimal digits, with a
  minus sign when negative. The text of any other finite value (a fraction, or a value so
  large that the shortest round-trip digits or the exponent form are printed) is a matter
  of the floating-point representation; it is the parameter \<open>fmt\<close>, about which nothing
  is assumed.
\<close>

definition String_num :: "(rat \<Rightarrow> string) \<Rightarrow> jsnum \<Rightarrow> string" where
  "String_num fmt v =
     (case v of
        NaN \<Rightarrow> ''NaN''
      | PosInf \<Rightarrow> ''Infinity''
      | NegInf \<Rightarrow> ''-Infinity''
      | Num q \<Rightarrow>
          if safe_integer q
          then (if q < 0 then ''-'' @ decimal (nat (- \<lfloor>q\<rfloor>)) else decimal (nat \<lfloor>q\<rfloor>))
          else fmt q)"

text \<open>
  In the closed examples below every number is a safe integer (possibly after
  truncation), so \<open>fmt\<close> is never consulted; \<open>fmt_unused\<close> fills the argument there.
\<close>

definition fmt_unused :: "rat \<Rightarrow> string" where
  "fmt_unused q = []"

subsection \<open>Strings\<close>

text \<open>
  Strings are lists of 8-bit characters, that is the code units below 256. There the
  class \<open>\s\<close> of a regular expression, and the characters \<open>trim\<close> removes, are tab, line
  feed, vertical tab, form feed, carriage return, space and the no-break space.
\<close>

definition is_space :: "char \<Rightarrow> bool" where
  "is_space c = (c \<in> {CHR 0x09, CHR 0x0A, CHR 0x0B, CHR 0x0C, CHR 0x0D, CHR 0x20, CHR 0xA0})"

definition trim :: "string \<Rightarrow> string" where
  "trim s = rev (dropWhile is_space (rev (dropWhile is_space s)))"

definition toLowerCase_char :: "char \<Rightarrow> char" where
  "toLowerCase_char c =
     (let n = of_char c :: nat
      in if (65 \<le> n \<and> n \<le> 90) \<or> (192 \<le> n \<and> n \<le> 222 \<and> n \<noteq> 215)
         then char_of (n + 32) else c)"

definition toLowerCase :: "string \<Rightarrow> string" where
  "toLowerCase s = map toLowerCase_char s"

definition endsWith :: "string \<Rightarrow> string \<Rightarrow> bool" where
  "endsWith s suf = (length suf \<le> length s \<and> drop (length s - length suf) s = suf)"

text \<open>\<open>padStart(n, c)\<close> with a one-character filler.\<close>

definition padStart :: "nat \<Rightarrow> char \<Rightarrow> string \<Rightarrow> string" where
  "padStart n c s = replicate (n - length s) c @ s"

text \<open>\<open>replace(/\s+/g, ' ')\<close>: every maximal run of white space becomes one space.\<close>

function collapse_ws :: "string \<Rightarrow> string" where
  "collapse_ws [] = []"
| "collapse_ws (c # cs) =
     (if is_space c then CHR 0x20 # collapse_ws (dropWhile is_space cs)
      else c # collapse_ws cs)"
  by pat_completeness auto
termination
  by (relation "measure length") (auto simp: le_imp_less_Suc length_dropWhile_le)

definition is_separator :: "char \<Rightarrow> bool" where
  "is_separator c = (c = CHR 0x2F \<or> c = CHR 0x5C)"

definition is_reserved :: "char \<Rightarrow> bool" where
  "is_reserved c =
     (c \<in> {CHR 0x00, CHR 0x3C, CHR 0x3E, CHR 0x3A, CHR 0x22, CHR 0x7C, CHR 0x3F, CHR 0x2A})"

definition sanitizeFileNamePart :: "string \<Rightarrow> string" where
  "sanitizeFileNamePart v =
     trim (collapse_ws (filter (\<lambda>c. \<not> is_reserved c)
       (map (\<lambda>c. if is_separator c then CHR 0x2D else c) v)))"

definition ensureMdExtension :: "string \<Rightarrow> string" where
  "ensureMdExtension fileName =
     (let trimmed = trim fileName
      in if endsWith (toLowerCase trimmed) ''.md'' then trimmed else trimmed @ ''.md'')"

subsection \<open>The file-name codec\<close>

definition formatStoryPoints :: "(rat \<Rightarrow> string) \<Rightarrow> jsnum \<Rightarrow> string" where
  "formatStoryPoints fmt v = (if isInteger v then String_num fmt v else String_num fmt v)"

definition formatPriority :: "(rat \<Rightarrow> string) \<Rightarrow> jsnum \<Rightarrow> error + string" where
  "formatPriority fmt v =
     (if \<not> isFinite v \<or> lt_zero v then Inl InvalidPriority
      else Inr (padStart 2 CHR ''0'' (String_num fmt (Math_trunc v))))"

definition buildFileName ::
  "(rat \<Rightarrow> string) \<Rightarrow> DocumentType \<Rightarrow> string \<Rightarrow> jsnum option \<Rightarrow> jsnum option \<Rightarrow> error + string"
where
  "buildFileName fmt type title priority storyPoints =
     (let t = sanitizeFileNamePart title
      in if t = [] then Inl InvalidTitle
         else if type = Task then
           (case priority of
              None \<Rightarrow> Inl PriorityRequired
            | Some p \<Rightarrow>
                (case storyPoints of
                   None \<Rightarrow> Inl StoryPointsRequired
                 | Some sp \<Rightarrow>
                     (case formatPriority fmt p of
                        Inl e \<Rightarrow> Inl e
                      | Inr pr \<Rightarrow>
                          Inr (pr @ '' '' @ t @ '' ('' @ formatStoryPoints fmt sp @ '').md''))))
         else
           (case storyPoints of
              Some sp \<Rightarrow> Inr (t @ '' ('' @ formatStoryPoints fmt sp @ '').md'')
            | None \<Rightarrow> Inr (t @ ''.md'')))"

text \<open>
  \<open>lines.join('\n')\<close>. The line feed is \<open>CHR 0x0A\<close>.
\<close>

fun join_lines :: "string list \<Rightarrow> string" where
  "join_lines [] = []"
| "join_lines [l] = l"
| "join_lines (l # ls) = l @ [CHR 0x0A] @ join_lines ls"

fun type_name :: "DocumentType \<Rightarrow> string" where
  "type_name Task = ''task''"
| "type_name Epic = ''epic''"
| "type_name Plan = ''plan''"
| "type_name Doc = ''doc''"
| "type_name Command = ''command''"
| "type_name Skill = ''skill''"
| "type_name Agent = ''agent''"
| "type_name Context = ''context''"

fun state_name :: "TaskState \<Rightarrow> string" where
  "state_name Pending = ''pending''"
| "state_name Doing = ''doing''"
| "state_name Done = ''done''"

text \<open>
  \<open>buildFrontmatter\<close>. The time stamp \<open>new Date().toISOString()\<close> is the parameter
  \<open>now\<close>. An optional line is a list of no or one line; \<open>formatPriority\<close> may throw.
\<close>

definition buildFrontmatter ::
  "(rat \<Rightarrow> string) \<Rightarrow> string \<Rightarrow> DocumentType \<Rightarrow> string \<Rightarrow> TaskState option \<Rightarrow>
     jsnum option \<Rightarrow> jsnum option \<Rightarrow> error + string"
where
  "buildFrontmatter fmt now type title state priority storyPoints =
     (let lines = [''---'', ''title: '' @ title, ''created: '' @ now,
                   ''type: '' @ type_name type];
          storyPointsLine =
            (case storyPoints of
               None \<Rightarrow> []
             | Some sp \<Rightarrow> [''storyPoints: '' @ formatStoryPoints fmt sp])
      in if type = Task then
           (case state of
              None \<Rightarrow> Inl StateRequired
            | Some st \<Rightarrow>
                (case priority of
                   None \<Rightarrow>
                     Inr (join_lines (lines @ [''state: '' @ state_name st] @ storyPointsLine
                            @ [''---'']) @ [CHR 0x0A])
                 | Some p \<Rightarrow>
                     (case formatPriority fmt p of
                        Inl e \<Rightarrow> Inl e
                      | Inr pr \<Rightarrow>
                          Inr (join_lines (lines @ [''state: '' @ state_name st]
                                 @ [''priority: '' @ pr] @ storyPointsLine @ [''---''])
                               @ [CHR 0x0A]))))
         else Inr (join_lines (lines @ storyPointsLine @ [''---'']) @ [CHR 0x0A]))"

section \<open>Paths and the file system\<close>

text \<open>
  A path is absolute and normalised: the list of its components below the root
  directory, which is \<open>[]\<close>. \<open>path.join\<close> (POSIX) appends its arguments and normalises:
  every argument is cut at the slashes, an empty component and \<open>.\<close> are dropped, and
  \<open>..\<close> removes the last component (nothing at the root).
\<close>

fun split_on :: "char \<Rightarrow> string \<Rightarrow> string list" where
  "split_on d [] = [[]]"
| "split_on d (c # cs) =
     (if c = d then [] # split_on d cs
      else (case split_on d cs of
              w # ws \<Rightarrow> (c # w) # ws
            | [] \<Rightarrow> [[c]]))"

definition push_segment :: "path \<Rightarrow> string \<Rightarrow> path" where
  "push_segment p c =
     (if c = [] \<or> c = ''.'' then p else if c = ''..'' then butlast p else p @ [c])"

definition path_join :: "path \<Rightarrow> string list \<Rightarrow> path" where
  "path_join base parts = foldl push_segment base (concat (map (split_on CHR 0x2F) parts))"

definition path_dirname :: "path \<Rightarrow> path" where
  "path_dirname p = butlast p"

text \<open>
  The file system maps a path to what is there: a regular file with its content, or a
  directory. Links are not modelled.
\<close>

datatype node = File string | Dir

type_synonym filesystem = "path \<Rightarrow> node option"

definition existsSync :: "filesystem \<Rightarrow> path \<Rightarrow> bool" where
  "existsSync fs p = (fs p \<noteq> None)"

definition is_file :: "filesystem \<Rightarrow> path \<Rightarrow> bool" where
  "is_file fs p = (case fs p of Some (File c) \<Rightarrow> True | _ \<Rightarrow> False)"

definition file_content :: "filesystem \<Rightarrow> path \<Rightarrow> string option" where
  "file_content fs p = (case fs p of Some (File c) \<Rightarrow> Some c | _ \<Rightarrow> None)"

text \<open>
  In a file system every entry lies in a directory, which lies in a directory, and so on
  up to the root directory.
\<close>

definition wf_fs :: "filesystem \<Rightarrow> bool" where
  "wf_fs fs = (\<forall>p q. fs p \<noteq> None \<and> strict_prefix q p \<longrightarrow> fs q = Some Dir)"

text \<open>
  A name in a directory has at most \<open>NAME_MAX\<close> bytes, and a whole path, written with
  a slash before every name, has fewer than \<open>PATH_MAX\<close> (the values of Linux). A
  character below 128 is one byte, any other character two (UTF-8). An operation that
  would make an entry beyond these limits fails with \<open>ENAMETOOLONG\<close>.
\<close>

definition NAME_MAX :: nat where
  "NAME_MAX = 255"

definition byte_length :: "string \<Rightarrow> nat" where
  "byte_length s = sum_list (map (\<lambda>c. if (of_char c :: nat) < 128 then 1 else 2) s)"

definition PATH_MAX :: nat where
  "PATH_MAX = 4096"

definition path_length :: "path \<Rightarrow> nat" where
  "path_length p = (if p = [] then 1 else sum_list (map (\<lambda>c. byte_length c + 1) p))"

definition name_too_long :: "path \<Rightarrow> bool" where
  "name_too_long p =
     ((p \<noteq> [] \<and> NAME_MAX < byte_length (last p)) \<or> PATH_MAX \<le> path_length p)"

text \<open>
  \<open>mkdirSync(p, {recursive: true})\<close>: every missing directory on the way to \<open>p\<close>, and
  \<open>p\<close> itself, is created; directories that exist are left alone; a regular file on the
  way is an error, and so is a directory to be made whose name or path is too long.
\<close>

definition mkdirSync :: "path \<Rightarrow> filesystem \<Rightarrow> errno + filesystem" where
  "mkdirSync p fs =
     (if list_ex (is_file fs) (butlast (prefixes p)) then Inl ENOTDIR
      else if is_file fs p then Inl EEXIST
      else if list_ex (\<lambda>q. fs q = None \<and> name_too_long q) (prefixes p) then Inl ENAMETOOLONG
      else Inr (\<lambda>q. if prefix q p then Some Dir else fs q))"

text \<open>
  \<open>writeFileSync\<close>: the directory of the file must be there; a file that is there is
  overwritten; a name or path that is too long is an error.
\<close>

definition writeFileSync :: "path \<Rightarrow> string \<Rightarrow> filesystem \<Rightarrow> errno + filesystem" where
  "writeFileSync p content fs =
     (if p = [] \<or> fs p = Some Dir then Inl EISDIR
      else (case fs (butlast p) of
              None \<Rightarrow> Inl ENOENT
            | Some (File c) \<Rightarrow> Inl ENOTDIR
            | Some Dir \<Rightarrow>
                if name_too_long p then Inl ENAMETOOLONG
                else Inr (fs(p \<mapsto> File content))))"

text \<open>
  \<open>renameSync\<close>. A regular file moves alone; a directory moves with everything below
  it. The \<open>move\<close> handler calls it only after it has seen that nothing is at the new
  path. For an entry at the new path the model has the replacement of a file by a file
  and reports the other combinations as errors (a directory would be replaced when it
  is empty, which is not tracked). A new name or path that is too long is an error.
\<close>

definition renameSync :: "path \<Rightarrow> path \<Rightarrow> filesystem \<Rightarrow> errno + filesystem" where
  "renameSync oldPath newPath fs =
     (case fs oldPath of
        None \<Rightarrow> Inl ENOENT
      | Some src \<Rightarrow>
          if oldPath = newPath then Inr fs
          else if oldPath = [] \<or> newPath = [] \<or> prefix oldPath newPath then Inl EINVAL
          else if fs (butlast newPath) \<noteq> Some Dir then Inl ENOENT
          else if name_too_long newPath then Inl ENAMETOOLONG
          else (case src of
                  File c \<Rightarrow>
                    (if fs newPath = Some Dir then Inl EISDIR
                     else Inr (fs(oldPath := None, newPath \<mapsto> File c)))
                | Dir \<Rightarrow>
                    (case fs newPath of
                       Some (File c) \<Rightarrow> Inl ENOTDIR
                     | Some Dir \<Rightarrow> Inl ENOTEMPTY
                     | None \<Rightarrow>
                         Inr (\<lambda>p. if prefix newPath p
                                   then fs (oldPath @ drop (length newPath) p)
                                   else if prefix oldPath p then None else fs p))))"

section \<open>Repository root and directory taxonomy\<close>

definition AGELUM_STRUCTURE :: "string list" where
  "AGELUM_STRUCTURE =
     [''docs'', ''plans'', ''tasks/pending'', ''tasks/doing'', ''tasks/done'',
      ''commands'', ''skills'', ''agents'', ''context'', ''epics'']"

text \<open>The table has no entry for \<open>task\<close>; it is read for the other types only.\<close>

fun nonTaskTypeToDir :: "DocumentType \<Rightarrow> string" where
  "nonTaskTypeToDir Epic = ''epics''"
| "nonTaskTypeToDir Plan = ''plans''"
| "nonTaskTypeToDir Doc = ''docs''"
| "nonTaskTypeToDir Command = ''commands''"
| "nonTaskTypeToDir Skill = ''skills''"
| "nonTaskTypeToDir Agent = ''agents''"
| "nonTaskTypeToDir Context = ''context''"

definition getAgelumPath :: "path \<Rightarrow> path" where
  "getAgelumPath repoPath = path_join repoPath [''agelum'']"

text \<open>
  \<open>AGELUM_STRUCTURE.forEach(mkdirSync)\<close>: the first error ends the loop, and the
  directories made before it stay.
\<close>

fun mkdir_each :: "path \<Rightarrow> string list \<Rightarrow> filesystem \<Rightarrow> filesystem \<times> errno option" where
  "mkdir_each agelumPath [] fs = (fs, None)"
| "mkdir_each agelumPath (dir # dirs) fs =
     (case mkdirSync (path_join agelumPath [dir]) fs of
        Inl e \<Rightarrow> (fs, Some e)
      | Inr fs' \<Rightarrow> mkdir_each agelumPath dirs fs')"

definition ensureAgelumStructure :: "path \<Rightarrow> filesystem \<Rightarrow> filesystem \<times> (errno + path)" where
  "ensureAgelumStructure repoPath fs =
     (let agelumPath = getAgelumPath repoPath
      in case mkdirSync agelumPath fs of
           Inl e \<Rightarrow> (fs, Inl e)
         | Inr fs1 \<Rightarrow>
             (case mkdir_each agelumPath AGELUM_STRUCTURE fs1 of
                (fs2, Some e) \<Rightarrow> (fs2, Inl e)
              | (fs2, None) \<Rightarrow> (fs2, Inr agelumPath)))"

definition MAX_DEPTH :: nat where
  "MAX_DEPTH = 10"

text \<open>
  The loop of \<open>findRepoRootPath\<close>: \<open>walk fs depth currentPath\<close> is the rest of the loop
  from the state \<open>(depth, currentPath)\<close>; \<open>None\<close> is leaving the loop without a
  \<open>return\<close>.
\<close>

function walk :: "filesystem \<Rightarrow> nat \<Rightarrow> path \<Rightarrow> path option" where
  "walk fs depth currentPath =
     (if depth < MAX_DEPTH then
        (if existsSync fs (path_join currentPath [''.git'']) then Some currentPath
         else (let parentPath = path_dirname currentPath
               in if parentPath = currentPath then None
                  else walk fs (depth + 1) parentPath))
      else None)"
  by pat_completeness auto
termination
  by (relation "measure (\<lambda>(fs, depth, currentPath). MAX_DEPTH - depth)") auto

declare walk.simps [simp del]

text \<open>
  \<open>cwd\<close> is \<open>process.cwd()\<close>. The hint \<open>globalConfigRoot\<close>, when given, is an absolute
  path, hence a non-empty string, and \<open>if (globalConfigRoot)\<close> is whether it is given.
\<close>

definition findRepoRootPath :: "path \<Rightarrow> path option \<Rightarrow> filesystem \<Rightarrow> path option" where
  "findRepoRootPath cwd globalConfigRoot fs =
     (case walk fs 0 cwd of
        Some found \<Rightarrow> Some found
      | None \<Rightarrow>
          (case globalConfigRoot of
             None \<Rightarrow> None
           | Some g \<Rightarrow> if existsSync fs g then Some g else None))"

section \<open>The tool handlers\<close>

text \<open>
  The argument objects, with the fields of the type each handler casts \<open>args\<close> to. A
  field with a question mark is optional. \<open>move\<close> has \<open>type: 'task'\<close> only, so
  the record has no field for it.
\<close>

record create_args =
  cr_type :: DocumentType
  cr_title :: string
  cr_content :: "string option"
  cr_state :: "TaskState option"
  cr_priority :: "jsnum option"
  cr_storyPoints :: "jsnum option"
  cr_fileName :: "string option"

record move_args =
  mv_title :: "string option"
  mv_priority :: "jsnum option"
  mv_storyPoints :: "jsnum option"
  mv_fileName :: "string option"
  mv_fromState :: TaskState
  mv_toState :: TaskState

record get_args =
  gt_type :: DocumentType
  gt_title :: "string option"
  gt_state :: "TaskState option"
  gt_priority :: "jsnum option"
  gt_storyPoints :: "jsnum option"
  gt_fileName :: "string option"

datatype result =
    CreateResult path  \<comment> \<open>path\<close>
  | MoveResult path path  \<comment> \<open>from, to\<close>
  | GetResult path bool  \<comment> \<open>path, exists\<close>

datatype request =
    Create create_args
  | Move move_args
  | Get get_args
  | Other string

text \<open>A destructuring default: \<open>content = ''\<close>, \<open>state = 'pending'\<close>, \<open>title = ''\<close>.\<close>

definition or_default :: "'a option \<Rightarrow> 'a \<Rightarrow> 'a" where
  "or_default v d = (case v of None \<Rightarrow> d | Some x \<Rightarrow> x)"

text \<open>\<open>!s\<close> on an optional string: absent or empty.\<close>

definition falsy :: "string option \<Rightarrow> bool" where
  "falsy s = (case s of None \<Rightarrow> True | Some x \<Rightarrow> x = [])"

fun targetDir_of :: "path \<Rightarrow> DocumentType \<Rightarrow> TaskState \<Rightarrow> path" where
  "targetDir_of agelumPath Task state = path_join agelumPath [''tasks'', state_name state]"
| "targetDir_of agelumPath type state = path_join agelumPath [nonTaskTypeToDir type]"

subsection \<open>create\<close>

text \<open>
  \<open>ensureMdExtension(sanitizeFileNamePart(fileName ?? buildFileName(...)))\<close>: the file
  name \<open>create\<close> resolves.
\<close>

definition create_resolvedFileName :: "(rat \<Rightarrow> string) \<Rightarrow> create_args \<Rightarrow> error + string" where
  "create_resolvedFileName fmt a =
     (case (case cr_fileName a of
              Some f \<Rightarrow> Inr f
            | None \<Rightarrow> buildFileName fmt (cr_type a) (cr_title a) (cr_priority a)
                        (cr_storyPoints a)) of
        Inl e \<Rightarrow> Inl e
      | Inr n \<Rightarrow> Inr (ensureMdExtension (sanitizeFileNamePart n)))"

definition create_body :: "string \<Rightarrow> string \<Rightarrow> string" where
  "create_body title content = [CHR 0x0A] @ ''# '' @ title @ [CHR 0x0A, CHR 0x0A] @ content
     @ [CHR 0x0A]"

text \<open>
  A handler takes the file system and returns it with the outcome, since the
  directories made before a \<open>throw\<close> stay.
\<close>

definition create_case ::
  "(rat \<Rightarrow> string) \<Rightarrow> string \<Rightarrow> path \<Rightarrow> filesystem \<Rightarrow> create_args \<Rightarrow>
     filesystem \<times> (error + result)"
where
  "create_case fmt now agelumPath fs a =
     (let type = cr_type a;
          title = cr_title a;
          content = or_default (cr_content a) [];
          state = or_default (cr_state a) Pending
      in case create_resolvedFileName fmt a of
           Inl e \<Rightarrow> (fs, Inl e)
         | Inr resolvedFileName \<Rightarrow>
             (let targetDir = targetDir_of agelumPath type state
              in case mkdirSync targetDir fs of
                   Inl e \<Rightarrow> (fs, Inl (FsError e))
                 | Inr fs1 \<Rightarrow>
                     (let filePath = path_join targetDir [resolvedFileName]
                      in if existsSync fs1 filePath then (fs1, Inl (AlreadyExists filePath))
                         else
                           (case buildFrontmatter fmt now type title (Some state)
                                   (cr_priority a) (cr_storyPoints a) of
                              Inl e \<Rightarrow> (fs1, Inl e)
                            | Inr frontmatter \<Rightarrow>
                                (case writeFileSync filePath
                                        (frontmatter @ create_body title content) fs1 of
                                   Inl e \<Rightarrow> (fs1, Inl (FsError e))
                                 | Inr fs2 \<Rightarrow> (fs2, Inr (CreateResult filePath)))))))"

subsection \<open>move\<close>

text \<open>The file name \<open>move\<close> resolves: \<open>sourceFileName\<close> after \<open>ensureMdExtension\<close>.\<close>

definition move_sourceFileName :: "(rat \<Rightarrow> string) \<Rightarrow> move_args \<Rightarrow> error + string" where
  "move_sourceFileName fmt a =
     (let title = or_default (mv_title a) []
      in case (if falsy (mv_fileName a)
               then (if title = [] then Inl TitleRequired
                     else buildFileName fmt Task title (mv_priority a) (mv_storyPoints a))
               else Inr (or_default (mv_fileName a) [])) of
           Inl e \<Rightarrow> Inl e
         | Inr n \<Rightarrow> Inr (ensureMdExtension n))"

definition move_case ::
  "(rat \<Rightarrow> string) \<Rightarrow> path \<Rightarrow> filesystem \<Rightarrow> move_args \<Rightarrow> filesystem \<times> (error + result)"
where
  "move_case fmt agelumPath fs a =
     (let fromState = mv_fromState a;
          toState = mv_toState a
      in if fromState = toState then (fs, Inl InvalidTransition)
         else
           (case move_sourceFileName fmt a of
              Inl e \<Rightarrow> (fs, Inl e)
            | Inr sourceFileName \<Rightarrow>
                (let sourceDir = path_join agelumPath [''tasks'', state_name fromState];
                     sourcePath = path_join sourceDir [sourceFileName]
                 in if \<not> existsSync fs sourcePath then (fs, Inl (SourceNotFound sourcePath))
                    else
                      (let targetDir = path_join agelumPath [''tasks'', state_name toState]
                       in case mkdirSync targetDir fs of
                            Inl e \<Rightarrow> (fs, Inl (FsError e))
                          | Inr fs1 \<Rightarrow>
                              (let targetPath = path_join targetDir [sourceFileName]
                               in if existsSync fs1 targetPath
                                  then (fs1, Inl (TargetExists targetPath))
                                  else
                                    (case renameSync sourcePath targetPath fs1 of
                                       Inl e \<Rightarrow> (fs1, Inl (FsError e))
                                     | Inr fs2 \<Rightarrow>
                                         (fs2, Inr (MoveResult sourcePath targetPath))))))))"

subsection \<open>get\<close>

text \<open>
  The file name \<open>get\<close> resolves. \<open>derived\<close> is \<open>resolvedFileName\<close> after the first
  \<open>if\<close>: a task without both numbers leaves it as it was. \<open>guessed\<close> is it after the
  second \<open>if\<close>, the guess from the title alone.
\<close>

definition get_resolvedFileName :: "(rat \<Rightarrow> string) \<Rightarrow> get_args \<Rightarrow> error + string" where
  "get_resolvedFileName fmt a =
     (let type = gt_type a;
          title = or_default (gt_title a) [];
          priority = gt_priority a;
          storyPoints = gt_storyPoints a
      in case (if falsy (gt_fileName a)
               then (if title = [] then Inl TitleRequired
                     else if type = Task then
                       (if priority \<noteq> None \<and> storyPoints \<noteq> None
                        then map_sum id Some (buildFileName fmt type title priority storyPoints)
                        else Inr (gt_fileName a))
                     else map_sum id Some (buildFileName fmt type title priority storyPoints))
               else Inr (gt_fileName a)) of
           Inl e \<Rightarrow> Inl e
         | Inr derived \<Rightarrow>
             (let guessed = (if falsy derived \<and> type = Task
                             then Some (ensureMdExtension (sanitizeFileNamePart title))
                             else derived)
              in if \<not> falsy guessed then Inr (ensureMdExtension (or_default guessed []))
                 else Inl UnresolvableFileName))"

definition possiblePaths :: "path \<Rightarrow> DocumentType \<Rightarrow> TaskState option \<Rightarrow> string \<Rightarrow> path list" where
  "possiblePaths agelumPath type state resolvedFileName =
     (if type = Task then
        (case state of
           Some st \<Rightarrow> [path_join agelumPath [''tasks'', state_name st, resolvedFileName]]
         | None \<Rightarrow>
             [path_join agelumPath [''tasks'', ''pending'', resolvedFileName],
              path_join agelumPath [''tasks'', ''doing'', resolvedFileName],
              path_join agelumPath [''tasks'', ''done'', resolvedFileName]])
      else [path_join agelumPath [nonTaskTypeToDir type, resolvedFileName]])"

text \<open>
  \<open>possiblePaths.find(p => fs.existsSync(p))\<close> is \<open>find\<close> on the list;
  \<open>possiblePaths[0]\<close> is read on a list that is never empty.
\<close>

definition get_case ::
  "(rat \<Rightarrow> string) \<Rightarrow> path \<Rightarrow> filesystem \<Rightarrow> get_args \<Rightarrow> error + result"
where
  "get_case fmt agelumPath fs a =
     (case get_resolvedFileName fmt a of
        Inl e \<Rightarrow> Inl e
      | Inr resolvedFileName \<Rightarrow>
          (let paths = possiblePaths agelumPath (gt_type a) (gt_state a) resolvedFileName
           in case find (existsSync fs) paths of
                Some existingPath \<Rightarrow> Inr (GetResult existingPath True)
              | None \<Rightarrow> Inr (GetResult (hd paths) False)))"

subsection \<open>The request handler\<close>

text \<open>
  Every call first finds the repository root and makes the directories; an error of
  any step is the answer of the call.
\<close>

definition call_tool ::
  "(rat \<Rightarrow> string) \<Rightarrow> string \<Rightarrow> path \<Rightarrow> path option \<Rightarrow> filesystem \<Rightarrow> request \<Rightarrow>
     filesystem \<times> (error + result)"
where
  "call_tool fmt now cwd globalConfigRoot fs req =
     (case findRepoRootPath cwd globalConfigRoot fs of
        None \<Rightarrow> (fs, Inl RootNotFound)
      | Some repoRootPath \<Rightarrow>
          (case ensureAgelumStructure repoRootPath fs of
             (fs1, Inl e) \<Rightarrow> (fs1, Inl (FsError e))
           | (fs1, Inr agelumPath) \<Rightarrow>
               (case req of
                  Create a \<Rightarrow> create_case fmt now agelumPath fs1 a
                | Move a \<Rightarrow> move_case fmt agelumPath fs1 a
                | Get a \<Rightarrow> (fs1, get_case fmt agelumPath fs1 a)
                | Other name \<Rightarrow> (fs1, Inl (UnknownOperation name)))))"

section \<open>Reading decimal digits back\<close>

text \<open>
  The value of a string of decimal digits; it is the left inverse of \<open>decimal\<close> that
  shows that the priority prefix determines the truncated priority.
\<close>

definition digit_val :: "char \<Rightarrow> nat" where
  "digit_val c = length (takeWhile (\<lambda>d. d \<noteq> c) ''0123456789'')"

definition parse_decimal :: "string \<Rightarrow> nat" where
  "parse_decimal s = foldl (\<lambda>a c. 10 * a + digit_val c) 0 s"

section \<open>The ancestors of the working directory\<close>

text \<open>
  The directories the walk can visit, nearest first: the working directory, its parent,
  and so on up to the root directory. This is the wording of the specification, against
  which the loop is compared.
\<close>

definition ancestors :: "path \<Rightarrow> path list" where
  "ancestors p = rev (prefixes p)"

section \<open>Names that sanitising leaves alone\<close>

text \<open>
  Three predicates on strings, for comparing the names the handlers resolve.
  \<open>tidy_ws\<close>: every white-space character is a space, and no two of them are adjacent.
  \<open>solid\<close>: no white space, no reserved character, no separator; such is the text of a
  number. \<open>settled\<close>: no reserved character and no separator, tidy white space, none
  of it at either end.
\<close>

fun tidy_ws :: "string \<Rightarrow> bool" where
  "tidy_ws [] = True"
| "tidy_ws [c] = (is_space c \<longrightarrow> c = CHR 0x20)"
| "tidy_ws (c # d # cs) = ((is_space c \<longrightarrow> c = CHR 0x20 \<and> \<not> is_space d) \<and> tidy_ws (d # cs))"

definition solid :: "string \<Rightarrow> bool" where
  "solid s = (\<forall>c \<in> set s. \<not> is_space c \<and> \<not> is_reserved c \<and> \<not> is_separator c)"

definition settled :: "string \<Rightarrow> bool" where
  "settled s =
     ((\<forall>c \<in> set s. \<not> is_reserved c \<and> \<not> is_separator c) \<and> tidy_ws s \<and>
      (s = [] \<or> (\<not> is_space (hd s) \<and> \<not> is_space (last s))))"

section \<open>Example data\<close>

text \<open>
  Example data for the closed instances: a repository at \<open>/repo\<close> with the task
  directories and one task in \<open>done\<close>.
\<close>

definition example_agelum :: path where
  "example_agelum = [''repo'', ''agelum'']"

definition example_fs :: filesystem where
  "example_fs =
     [[] \<mapsto> Dir, [''repo''] \<mapsto> Dir, [''repo'', ''.git''] \<mapsto> Dir,
      [''repo'', ''agelum''] \<mapsto> Dir,
      [''repo'', ''agelum'', ''tasks''] \<mapsto> Dir,
      [''repo'', ''agelum'', ''tasks'', ''pending''] \<mapsto> Dir,
      [''repo'', ''agelum'', ''tasks'', ''doing''] \<mapsto> Dir,
      [''repo'', ''agelum'', ''tasks'', ''done''] \<mapsto> Dir,
      [''repo'', ''agelum'', ''tasks'', ''done'', ''03 Fix bug (5).md''] \<mapsto> File ''text'']"

definition example_move :: "TaskState \<Rightarrow> TaskState \<Rightarrow> move_args" where
  "example_move from to =
     \<lparr>mv_title = Some ''Fix bug'', mv_priority = Some (Num 3), mv_storyPoints = Some (Num 5),
      mv_fileName = None, mv_fromState = from, mv_toState = to\<rparr>"

definition example_now :: string where
  "example_now = ''2026-01-01T00:00:00.000Z''"

definition example_create :: "TaskState option \<Rightarrow> create_args" where
  "example_create st =
     \<lparr>cr_type = Task, cr_title = ''Fix bug'', cr_content = Some ''Details'', cr_state = st,
      cr_priority = Some (Num 3), cr_storyPoints = Some (Num 5), cr_fileName = None\<rparr>"

definition example_create_named :: create_args where
  "example_create_named =
     \<lparr>cr_type = Task, cr_title = ''Fix bug'', cr_content = None, cr_state = None,
      cr_priority = None, cr_storyPoints = None, cr_fileName = Some ''notes''\<rparr>"

definition example_get :: "string \<Rightarrow> get_args" where
  "example_get f =
     \<lparr>gt_type = Task, gt_title = None, gt_state = None, gt_priority = None,
      gt_storyPoints = None, gt_fileName = Some f\<rparr>"

definition example_deep :: path where
  "example_deep = [''repo'', ''a'', ''b'', ''c'', ''d'', ''e'', ''f'', ''g'', ''h'', ''i'', ''j'']"

definition example_create_colon :: create_args where
  "example_create_colon =
     \<lparr>cr_type = Task, cr_title = ''Fix bug'', cr_content = Some ''Details'', cr_state = None,
      cr_priority = Some (Num 3), cr_storyPoints = Some (Num 5),
      cr_fileName = Some ''Fix: bug''\<rparr>"

definition example_move_colon :: move_args where
  "example_move_colon =
     \<lparr>mv_title = Some ''Fix bug'', mv_priority = Some (Num 3), mv_storyPoints = Some (Num 5),
      mv_fileName = Some ''Fix: bug'', mv_fromState = Pending, mv_toState = Doing\<rparr>"

definition example_get_colon :: get_args where
  "example_get_colon =
     \<lparr>gt_type = Task, gt_title = Some ''Fix bug'', gt_state = None,
      gt_priority = Some (Num 3), gt_storyPoints = Some (Num 5),
      gt_fileName = Some ''Fix: bug''\<rparr>"

definition example_ready :: filesystem where
  "example_ready = fst (ensureAgelumStructure [''repo''] example_fs)"

definition example_bare_fs :: filesystem where
  "example_bare_fs = [[] \<mapsto> Dir, [''repo''] \<mapsto> Dir, [''repo'', ''.git''] \<mapsto> Dir]"

definition example_dir_fs :: filesystem where
  "example_dir_fs =
     example_fs
       ([''repo'', ''agelum'', ''tasks'', ''pending'', ''bundle.md''] \<mapsto> Dir,
        [''repo'', ''agelum'', ''tasks'', ''pending'', ''bundle.md'', ''inner.txt''] \<mapsto>
          File ''inner'')"

definition example_move_bundle :: move_args where
  "example_move_bundle =
     \<lparr>mv_title = None, mv_priority = None, mv_storyPoints = None,
      mv_fileName = Some ''bundle.md'', mv_fromState = Pending, mv_toState = Doing\<rparr>"

definition example_create_injected :: create_args where
  "example_create_injected =
     \<lparr>cr_type = Task, cr_title = ''Fix bug\<newline>priority: 99'', cr_content = None,
      cr_state = None, cr_priority = None, cr_storyPoints = None,
      cr_fileName = Some ''notes''\<rparr>"

section \<open>Properties of the file-name codec\<close>

subsection \<open>Decimal digits and padding\<close>

lemma digit_val_digit_char: "d < 10 \<Longrightarrow> digit_val (digit_char d) = d"
proof -
  assume "d < 10"
  then have "d = 0 \<or> d = 1 \<or> d = 2 \<or> d = 3 \<or> d = 4 \<or> d = 5 \<or> d = 6 \<or> d = 7 \<or> d = 8 \<or> d = 9"
    by arith
  then show ?thesis
    by (elim disjE) (simp_all add: digit_char_def digit_val_def)
qed

lemma parse_decimal_snoc: "parse_decimal (s @ [c]) = 10 * parse_decimal s + digit_val c"
  by (simp add: parse_decimal_def)

lemma parse_decimal_decimal: "parse_decimal (decimal n) = n"
proof (induction n rule: decimal.induct)
  case (1 n)
  show ?case
  proof (cases "n < 10")
    case True
    then show ?thesis
      by (subst decimal.simps) (simp add: parse_decimal_def digit_val_digit_char)
  next
    case False
    then have "parse_decimal (decimal (n div 10)) = n div 10"
      using "1" by simp
    with False show ?thesis
      by (subst decimal.simps) (simp add: parse_decimal_snoc digit_val_digit_char)
  qed
qed

lemma parse_decimal_zeros: "parse_decimal (replicate k CHR ''0'' @ s) = parse_decimal s"
proof -
  have "foldl (\<lambda>a c. 10 * a + digit_val c) 0 (replicate k CHR ''0'') = 0"
    by (induction k) (simp_all add: digit_val_def)
  then show ?thesis by (simp add: parse_decimal_def)
qed

lemma parse_padStart: "parse_decimal (padStart k CHR ''0'' (decimal n)) = n"
  by (simp add: padStart_def parse_decimal_zeros parse_decimal_decimal)

lemma decimal_not_Nil: "decimal n \<noteq> []"
  by (subst decimal.simps) simp

lemma length_decimal: "length (decimal n) = 1 \<longleftrightarrow> n < 10"
proof (cases "n < 10")
  case True then show ?thesis by (subst decimal.simps) simp
next
  case False
  then have "decimal n = decimal (n div 10) @ [digit_char (n mod 10)]"
    by (subst decimal.simps) simp
  then have "length (decimal n) = Suc (length (decimal (n div 10)))" by simp
  with False show ?thesis by (simp add: decimal_not_Nil)
qed

lemma padStart_decimal:
  "padStart 2 CHR ''0'' (decimal n) = (if n < 10 then CHR ''0'' # decimal n else decimal n)"
proof (cases "n < 10")
  case True
  then have "length (decimal n) = 1" using length_decimal by blast
  with True show ?thesis by (simp add: padStart_def)
next
  case False
  then have "length (decimal n) \<noteq> 1" using length_decimal [of n] by simp
  moreover have "length (decimal n) \<noteq> 0" by (simp add: decimal_not_Nil)
  ultimately have "2 \<le> length (decimal n)" by arith
  with False show ?thesis by (simp add: padStart_def)
qed

lemma length_padStart: "n \<le> length (padStart n c s)"
  by (simp add: padStart_def)

lemma trunc_rat_nonneg: "0 \<le> q \<Longrightarrow> trunc_rat q = \<lfloor>q\<rfloor>"
  by (simp add: trunc_rat_def)

lemma safe_integer_of_int: "safe_integer (of_int k) \<longleftrightarrow> \<bar>k\<bar> \<le> MAX_SAFE_INTEGER"
  by (simp add: safe_integer_def)

lemma String_num_trunc:
  assumes "0 \<le> q" and "\<lfloor>q\<rfloor> \<le> MAX_SAFE_INTEGER"
  shows "String_num fmt (Math_trunc (Num q)) = decimal (nat \<lfloor>q\<rfloor>)"
proof -
  have "0 \<le> \<lfloor>q\<rfloor>" using assms(1) by simp
  with assms show ?thesis
    by (simp add: String_num_def trunc_rat_nonneg safe_integer_of_int)
qed

lemma formatPriority_safe:
  assumes "0 \<le> q" and "\<lfloor>q\<rfloor> \<le> MAX_SAFE_INTEGER"
  shows "formatPriority fmt (Num q) = Inr (padStart 2 CHR ''0'' (decimal (nat \<lfloor>q\<rfloor>)))"
proof -
  have "\<not> lt_zero (Num q)" using assms(1) by simp
  then show ?thesis
    using String_num_trunc [OF assms] by (simp add: formatPriority_def)
qed

lemma formatPriority_error: "formatPriority fmt v = Inl e \<Longrightarrow> e = InvalidPriority"
  by (auto simp: formatPriority_def split: if_splits)

lemma floor_7_2: "\<lfloor>7 / 2 :: rat\<rfloor> = 3"
  by code_simp

lemma decimal_3: "decimal 3 = ''3''"
  by (simp add: decimal.simps digit_char_def)

lemma decimal_42: "decimal 42 = ''42''"
  by (simp add: decimal.simps digit_char_def)

subsection \<open>Priority formatting\<close>

text \<open>
  C8. \<open>formatPriority\<close> fails, with \<open>InvalidPriority\<close> and no other error, exactly when
  the priority is not finite or is negative. Every result has at least two characters.
  For a finite, non-negative priority whose integer part is a safe integer, the result
  is the decimal digits of the integer part (the value truncated), with one zero in
  front when that is a single digit: 3 gives 03, 42 gives 42, and 3.5 gives 03.
\<close>

theorem formatPriority_spec:
  "(formatPriority fmt v = Inl InvalidPriority \<longleftrightarrow> \<not> isFinite v \<or> lt_zero v) \<and>
   (\<forall>e. formatPriority fmt v = Inl e \<longrightarrow> e = InvalidPriority) \<and>
   (\<forall>s. formatPriority fmt v = Inr s \<longrightarrow> 2 \<le> length s) \<and>
   (0 \<le> q \<and> \<lfloor>q\<rfloor> \<le> MAX_SAFE_INTEGER \<longrightarrow>
      formatPriority fmt (Num q) =
        Inr (if nat \<lfloor>q\<rfloor> < 10 then CHR ''0'' # decimal (nat \<lfloor>q\<rfloor>) else decimal (nat \<lfloor>q\<rfloor>)))"
proof (intro conjI allI impI)
  show "formatPriority fmt v = Inl InvalidPriority \<longleftrightarrow> \<not> isFinite v \<or> lt_zero v"
    by (simp add: formatPriority_def)
next
  fix e assume "formatPriority fmt v = Inl e"
  then show "e = InvalidPriority" by (rule formatPriority_error)
next
  fix s assume "formatPriority fmt v = Inr s"
  then show "2 \<le> length s"
    by (auto simp: formatPriority_def length_padStart split: if_splits)
next
  assume "0 \<le> q \<and> \<lfloor>q\<rfloor> \<le> MAX_SAFE_INTEGER"
  then show "formatPriority fmt (Num q) =
        Inr (if nat \<lfloor>q\<rfloor> < 10 then CHR ''0'' # decimal (nat \<lfloor>q\<rfloor>) else decimal (nat \<lfloor>q\<rfloor>))"
    using formatPriority_safe [of q fmt] by (simp add: padStart_decimal)
qed

theorem formatPriority_spec_witness:
  "formatPriority fmt_unused (Num 3) = Inr ''03'' \<and>
   formatPriority fmt_unused (Num 42) = Inr ''42'' \<and>
   formatPriority fmt_unused (Num (7 / 2)) = Inr ''03'' \<and>
   formatPriority fmt_unused (Num (- 1)) = Inl InvalidPriority \<and>
   formatPriority fmt_unused NaN = Inl InvalidPriority \<and>
   formatPriority fmt_unused PosInf = Inl InvalidPriority"
proof -
  have "formatPriority fmt_unused (Num 3) = Inr ''03''"
    using formatPriority_spec [of fmt_unused NaN 3]
    by (simp add: MAX_SAFE_INTEGER_def decimal_3)
  moreover have "formatPriority fmt_unused (Num 42) = Inr ''42''"
    using formatPriority_spec [of fmt_unused NaN 42]
    by (simp add: MAX_SAFE_INTEGER_def decimal_42)
  moreover have "formatPriority fmt_unused (Num (7 / 2)) = Inr ''03''"
    using formatPriority_spec [of fmt_unused NaN "7 / 2"]
    by (simp add: MAX_SAFE_INTEGER_def decimal_3 floor_7_2)
  moreover have "formatPriority fmt_unused (Num (- 1)) = Inl InvalidPriority"
    using formatPriority_spec [of fmt_unused "Num (- 1)" 0] by simp
  moreover have "formatPriority fmt_unused NaN = Inl InvalidPriority"
    using formatPriority_spec [of fmt_unused NaN 0] by simp
  moreover have "formatPriority fmt_unused PosInf = Inl InvalidPriority"
    using formatPriority_spec [of fmt_unused PosInf 0] by simp
  ultimately show ?thesis by simp
qed

subsection \<open>The priority in the file name\<close>

lemma padStart_decimal_inj:
  "padStart 2 CHR ''0'' (decimal n) = padStart 2 CHR ''0'' (decimal m) \<longleftrightarrow> n = m"
proof
  assume "padStart 2 CHR ''0'' (decimal n) = padStart 2 CHR ''0'' (decimal m)"
  then have "parse_decimal (padStart 2 CHR ''0'' (decimal n)) =
             parse_decimal (padStart 2 CHR ''0'' (decimal m))"
    by simp
  then show "n = m" by (simp only: parse_padStart)
next
  assume "n = m" then show "padStart 2 CHR ''0'' (decimal n) = padStart 2 CHR ''0'' (decimal m)"
    by simp
qed

lemma buildFileName_task:
  assumes "sanitizeFileNamePart title \<noteq> []" and "0 \<le> q" and "\<lfloor>q\<rfloor> \<le> MAX_SAFE_INTEGER"
  shows "buildFileName fmt Task title (Some (Num q)) (Some sp) =
           Inr (padStart 2 CHR ''0'' (decimal (nat \<lfloor>q\<rfloor>)) @ '' '' @ sanitizeFileNamePart title
                @ '' ('' @ formatStoryPoints fmt sp @ '').md'')"
  using assms by (simp add: buildFileName_def formatPriority_safe)

lemma sanitize_Fix_bug: "sanitizeFileNamePart ''Fix bug'' = ''Fix bug''"
  by (simp add: sanitizeFileNamePart_def trim_def is_space_def is_reserved_def is_separator_def)

text \<open>
  C1. The file name of a task is a function of title, priority and story points alone.
  For a valid task identity (a title that is not empty after sanitising, finite
  non-negative priorities whose integer parts are safe integers) and equal title and
  story points, two file names are equal exactly when the integer parts of the two
  priorities are equal: priorities with different integer parts give different file
  names, priorities that differ only after the decimal point give the same file name.
\<close>

theorem buildFileName_priority:
  assumes "sanitizeFileNamePart title \<noteq> []"
    and "0 \<le> p1" and "\<lfloor>p1\<rfloor> \<le> MAX_SAFE_INTEGER"
    and "0 \<le> p2" and "\<lfloor>p2\<rfloor> \<le> MAX_SAFE_INTEGER"
  shows "\<exists>f1 f2. buildFileName fmt Task title (Some (Num p1)) (Some sp) = Inr f1 \<and>
                 buildFileName fmt Task title (Some (Num p2)) (Some sp) = Inr f2 \<and>
                 (f1 = f2 \<longleftrightarrow> \<lfloor>p1\<rfloor> = \<lfloor>p2\<rfloor>)"
proof -
  have "0 \<le> \<lfloor>p1\<rfloor>" and "0 \<le> \<lfloor>p2\<rfloor>"
    using assms(2,4) by simp_all
  then have "nat \<lfloor>p1\<rfloor> = nat \<lfloor>p2\<rfloor> \<longleftrightarrow> \<lfloor>p1\<rfloor> = \<lfloor>p2\<rfloor>"
    by (rule eq_nat_nat_iff)
  then show ?thesis
    by (simp add: buildFileName_task [OF assms(1,2,3)] buildFileName_task [OF assms(1,4,5)]
        padStart_decimal_inj del: floor_eq_iff)
qed

theorem buildFileName_priority_witness:
  "buildFileName fmt_unused Task ''Fix bug'' (Some (Num 3)) (Some (Num 5)) \<noteq>
   buildFileName fmt_unused Task ''Fix bug'' (Some (Num 42)) (Some (Num 5))"
  using buildFileName_priority [of "''Fix bug''" 3 42 fmt_unused "Num 5"]
  by (auto simp add: sanitize_Fix_bug MAX_SAFE_INTEGER_def)

theorem buildFileName_priority_collision:
  "Num 3 \<noteq> Num (7 / 2) \<and>
   buildFileName fmt_unused Task ''Fix bug'' (Some (Num 3)) (Some (Num 5)) = Inr ''03 Fix bug (5).md'' \<and>
   buildFileName fmt_unused Task ''Fix bug'' (Some (Num (7 / 2))) (Some (Num 5)) = Inr ''03 Fix bug (5).md''"
  by code_simp

section \<open>Properties of the handlers\<close>

subsection \<open>Errors and outcomes of the move handler\<close>

lemma buildFileName_error:
  "buildFileName fmt type title priority storyPoints = Inl e \<Longrightarrow>
     e \<in> {InvalidTitle, PriorityRequired, StoryPointsRequired, InvalidPriority}"
  by (auto simp: buildFileName_def Let_def dest: formatPriority_error
      split: if_splits option.splits sum.splits)

lemma move_sourceFileName_error:
  "move_sourceFileName fmt a = Inl e \<Longrightarrow>
     e \<in> {TitleRequired, InvalidTitle, PriorityRequired, StoryPointsRequired, InvalidPriority}"
  by (auto simp: move_sourceFileName_def Let_def dest: buildFileName_error
      split: if_splits sum.splits)

lemma move_case_same_state:
  "mv_fromState a = mv_toState a \<Longrightarrow> move_case fmt agelumPath fs a = (fs, Inl InvalidTransition)"
  by (simp add: move_case_def)

lemma move_case_distinct:
  assumes "mv_fromState a \<noteq> mv_toState a"
  shows "snd (move_case fmt agelumPath fs a) \<noteq> Inl InvalidTransition"
proof (cases "move_sourceFileName fmt a")
  case (Inl e)
  then have "e \<noteq> InvalidTransition"
    using move_sourceFileName_error by fastforce
  with Inl assms show ?thesis by (simp add: move_case_def)
next
  case (Inr n)
  with assms show ?thesis
    by (simp add: move_case_def Let_def split: sum.splits)
qed

lemma example_move_name:
  "move_sourceFileName fmt_unused (example_move from to) = Inr ''03 Fix bug (5).md''"
  unfolding example_move_def by code_simp

subsection \<open>What the file-system operations change\<close>

lemma prefixes_butlast: "prefixes p = butlast (prefixes p) @ [p]"
  using append_butlast_last_id [of "prefixes p"] by (simp add: prefixes_not_Nil)

lemma prefix_cases: "prefix q p \<Longrightarrow> q \<in> set (butlast (prefixes p)) \<or> q = p"
proof -
  assume "prefix q p"
  then have "q \<in> set (prefixes p)" by (simp add: in_set_prefixes)
  then have "q \<in> set (butlast (prefixes p) @ [p])" using prefixes_butlast [of p] by simp
  then show ?thesis by auto
qed

lemma mkdirSync_no_file_on_way:
  assumes "mkdirSync p fs = Inr fs1" and "prefix q p"
  shows "\<not> is_file fs q"
proof -
  from assms(1) have a: "\<not> list_ex (is_file fs) (butlast (prefixes p))" and b: "\<not> is_file fs p"
    by (auto simp: mkdirSync_def split: if_splits)
  from prefix_cases [OF assms(2)] a b show ?thesis
    by (auto simp: list_ex_iff)
qed

lemma mkdirSync_result:
  "mkdirSync p fs = Inr fs1 \<Longrightarrow> fs1 = (\<lambda>q. if prefix q p then Some Dir else fs q)"
  by (auto simp: mkdirSync_def split: if_splits)

lemma mkdirSync_keeps:
  assumes "mkdirSync p fs = Inr fs1" and "fs q \<noteq> None"
  shows "fs1 q = fs q"
proof (cases "prefix q p")
  case True
  with assms(1) have "\<not> is_file fs q" by (rule mkdirSync_no_file_on_way)
  with assms(2) have "fs q = Some Dir"
    by (cases "fs q") (auto simp: is_file_def split: node.splits)
  with True show ?thesis using mkdirSync_result [OF assms(1)] by simp
next
  case False
  then show ?thesis using mkdirSync_result [OF assms(1)] by simp
qed

lemma mkdirSync_file_content:
  assumes "mkdirSync p fs = Inr fs1"
  shows "file_content fs1 q = file_content fs q"
proof (cases "prefix q p")
  case True
  with assms(1) have "\<not> is_file fs q" by (rule mkdirSync_no_file_on_way)
  then have "file_content fs q = None"
    by (auto simp: is_file_def file_content_def split: option.splits node.splits)
  moreover have "fs1 q = Some Dir" using True mkdirSync_result [OF assms(1)] by simp
  ultimately show ?thesis by (simp add: file_content_def)
next
  case False
  then show ?thesis using mkdirSync_result [OF assms(1)] by (simp add: file_content_def)
qed

lemma renameSync_file:
  assumes "renameSync src dst fs = Inr fs'" and "fs src = Some (File c)" and "fs dst = None"
  shows "fs' = fs(src := None, dst \<mapsto> File c)"
  using assms by (auto simp: renameSync_def split: if_splits)

lemma move_case_Inr:
  assumes "move_case fmt agelumPath fs a = (fs', Inr r)"
  obtains n fs1 where "move_sourceFileName fmt a = Inr n"
    and "existsSync fs (path_join (path_join agelumPath [''tasks'', state_name (mv_fromState a)]) [n])"
    and "mkdirSync (path_join agelumPath [''tasks'', state_name (mv_toState a)]) fs = Inr fs1"
    and "\<not> existsSync fs1 (path_join (path_join agelumPath [''tasks'', state_name (mv_toState a)]) [n])"
    and "renameSync (path_join (path_join agelumPath [''tasks'', state_name (mv_fromState a)]) [n])
           (path_join (path_join agelumPath [''tasks'', state_name (mv_toState a)]) [n]) fs1 = Inr fs'"
    and "r = MoveResult (path_join (path_join agelumPath [''tasks'', state_name (mv_fromState a)]) [n])
           (path_join (path_join agelumPath [''tasks'', state_name (mv_toState a)]) [n])"
  using assms by (auto simp: move_case_def Let_def split: if_splits sum.splits)

lemma move_case_relocates:
  assumes "move_case fmt agelumPath fs a = (fs', Inr r)"
  shows "\<exists>n src dst.
           move_sourceFileName fmt a = Inr n \<and>
           src = path_join (path_join agelumPath [''tasks'', state_name (mv_fromState a)]) [n] \<and>
           dst = path_join (path_join agelumPath [''tasks'', state_name (mv_toState a)]) [n] \<and>
           r = MoveResult src dst \<and> existsSync fs src \<and> \<not> existsSync fs dst \<and>
           (\<forall>c. fs src = Some (File c) \<longrightarrow>
              fs' dst = Some (File c) \<and> fs' src = None \<and>
              (\<forall>p. p \<noteq> src \<and> p \<noteq> dst \<longrightarrow>
                 file_content fs' p = file_content fs p \<and> (existsSync fs p \<longrightarrow> fs' p = fs p)))"
proof -
  from assms obtain n fs1 where n: "move_sourceFileName fmt a = Inr n"
    and src: "existsSync fs (path_join (path_join agelumPath [''tasks'', state_name (mv_fromState a)]) [n])"
    and mk: "mkdirSync (path_join agelumPath [''tasks'', state_name (mv_toState a)]) fs = Inr fs1"
    and dst: "\<not> existsSync fs1 (path_join (path_join agelumPath [''tasks'', state_name (mv_toState a)]) [n])"
    and rn: "renameSync (path_join (path_join agelumPath [''tasks'', state_name (mv_fromState a)]) [n])
           (path_join (path_join agelumPath [''tasks'', state_name (mv_toState a)]) [n]) fs1 = Inr fs'"
    and r: "r = MoveResult (path_join (path_join agelumPath [''tasks'', state_name (mv_fromState a)]) [n])
           (path_join (path_join agelumPath [''tasks'', state_name (mv_toState a)]) [n])"
    by (rule move_case_Inr)
  define s where "s = path_join (path_join agelumPath [''tasks'', state_name (mv_fromState a)]) [n]"
  define d where "d = path_join (path_join agelumPath [''tasks'', state_name (mv_toState a)]) [n]"
  note src' = src [folded s_def] and dst' = dst [folded d_def] and rn' = rn [folded s_def d_def]
  have d_free: "\<not> existsSync fs d"
  proof
    assume "existsSync fs d"
    then have "fs1 d = fs d" using mkdirSync_keeps [OF mk] by (simp add: existsSync_def)
    with \<open>existsSync fs d\<close> dst' show False by (simp add: existsSync_def)
  qed
  have frame: "fs' d = Some (File c) \<and> fs' s = None \<and>
      (\<forall>p. p \<noteq> s \<and> p \<noteq> d \<longrightarrow>
         file_content fs' p = file_content fs p \<and> (existsSync fs p \<longrightarrow> fs' p = fs p))"
    if c: "fs s = Some (File c)" for c
  proof -
    have s1: "fs1 s = Some (File c)" using mkdirSync_keeps [OF mk, of s] c by simp
    have d1: "fs1 d = None" using dst' by (simp add: existsSync_def)
    have sd: "s \<noteq> d" using s1 d1 by auto
    have eq: "fs' = fs1(s := None, d \<mapsto> File c)" using renameSync_file [OF rn' s1 d1] .
    show ?thesis
    proof (intro conjI allI impI)
      show "fs' d = Some (File c)" by (simp add: eq)
      show "fs' s = None" using sd by (simp add: eq)
    next
      fix p assume p: "p \<noteq> s \<and> p \<noteq> d"
      then have "fs' p = fs1 p" by (simp add: eq)
      then show "file_content fs' p = file_content fs p"
        using mkdirSync_file_content [OF mk, of p] by (simp add: file_content_def)
    next
      fix p assume p: "p \<noteq> s \<and> p \<noteq> d" and "existsSync fs p"
      then have "fs1 p = fs p" using mkdirSync_keeps [OF mk, of p] by (simp add: existsSync_def)
      moreover have "fs' p = fs1 p" using p by (simp add: eq)
      ultimately show "fs' p = fs p" by simp
    qed
  qed
  show ?thesis
    using n r src' d_free frame unfolding s_def d_def by blast
qed

subsection \<open>Resolved file names are single path components\<close>

lemma set_collapse_ws: "set (collapse_ws s) \<subseteq> insert CHR 0x20 (set s)"
proof (induction s rule: collapse_ws.induct)
  case 1
  show ?case by simp
next
  case (2 c cs)
  have "set (dropWhile is_space cs) \<subseteq> set cs" by (rule set_dropWhileD [THEN subsetI])
  with 2 show ?case by (cases "is_space c") auto
qed

lemma set_trim: "set (trim s) \<subseteq> set s"
proof -
  have "set (dropWhile is_space (rev (dropWhile is_space s))) \<subseteq> set (rev (dropWhile is_space s))"
    by (rule set_dropWhileD [THEN subsetI])
  moreover have "set (dropWhile is_space s) \<subseteq> set s"
    by (rule set_dropWhileD [THEN subsetI])
  ultimately show ?thesis by (auto simp: trim_def)
qed

lemma sanitize_no_slash: "CHR 0x2F \<notin> set (sanitizeFileNamePart v)"
proof -
  let ?m = "filter (\<lambda>c. \<not> is_reserved c) (map (\<lambda>c. if is_separator c then CHR 0x2D else c) v)"
  have "CHR 0x2F \<notin> set ?m" by (auto simp: is_separator_def)
  then have "CHR 0x2F \<notin> set (collapse_ws ?m)" using set_collapse_ws [of ?m] by auto
  then show ?thesis using set_trim [of "collapse_ws ?m"] by (auto simp: sanitizeFileNamePart_def)
qed

lemma length_toLowerCase: "length (toLowerCase s) = length s"
  by (simp add: toLowerCase_def)

lemma ensureMdExtension_length: "3 \<le> length (ensureMdExtension s)"
  by (auto simp: ensureMdExtension_def Let_def endsWith_def length_toLowerCase)

lemma ensureMdExtension_no_slash:
  "CHR 0x2F \<notin> set s \<Longrightarrow> CHR 0x2F \<notin> set (ensureMdExtension s)"
  using set_trim [of s] by (auto simp: ensureMdExtension_def Let_def)

lemma split_on_absent: "d \<notin> set s \<Longrightarrow> split_on d s = [s]"
  by (induction s) auto

lemma path_join_component:
  assumes "CHR 0x2F \<notin> set n" and "3 \<le> length n"
  shows "path_join dir [n] = dir @ [n]"
proof -
  from assms(2) have "n \<noteq> []" and "n \<noteq> ''.''" and "n \<noteq> ''..''" by auto
  then show ?thesis
    by (simp add: path_join_def split_on_absent [OF assms(1)] push_segment_def)
qed

lemma create_path:
  "path_join dir [ensureMdExtension (sanitizeFileNamePart f)] =
     dir @ [ensureMdExtension (sanitizeFileNamePart f)]"
  by (simp add: path_join_component ensureMdExtension_length ensureMdExtension_no_slash
      sanitize_no_slash)

subsection \<open>create is not an upsert\<close>

lemma mkdirSync_idem:
  assumes "\<forall>q. prefix q p \<longrightarrow> fs q = Some Dir"
  shows "mkdirSync p fs = Inr fs"
proof -
  have "\<not> is_file fs q" if "prefix q p" for q
    using that assms by (simp add: is_file_def)
  moreover have "prefix q p" if "q \<in> set (butlast (prefixes p))" for q
    using that in_set_butlastD [of q "prefixes p"] by (simp add: in_set_prefixes)
  ultimately have "\<not> list_ex (is_file fs) (butlast (prefixes p))" and "\<not> is_file fs p"
    by (auto simp: list_ex_iff)
  moreover have "\<not> list_ex (\<lambda>q. fs q = None \<and> name_too_long q) (prefixes p)"
    using assms by (auto simp: list_ex_iff in_set_prefixes)
  moreover have "(\<lambda>q. if prefix q p then Some Dir else fs q) = fs"
    using assms by auto
  ultimately show ?thesis by (simp add: mkdirSync_def)
qed

lemma mkdirSync_made:
  "mkdirSync p fs = Inr fs1 \<Longrightarrow> prefix q p \<Longrightarrow> fs1 q = Some Dir"
  using mkdirSync_result [of p fs fs1] by simp

lemma writeFileSync_result:
  "writeFileSync p content fs = Inr fs' \<Longrightarrow> fs' = fs(p \<mapsto> File content)"
  by (auto simp: writeFileSync_def split: if_splits option.splits node.splits)

lemma wf_fs_mkdir_parent:
  assumes "wf_fs fs" and "fs (dir @ [n]) \<noteq> None"
  shows "mkdirSync dir fs = Inr fs"
proof (rule mkdirSync_idem, intro allI impI)
  fix q assume "prefix q dir"
  then obtain zs where "dir = q @ zs" by (auto simp: prefix_def)
  then have "dir @ [n] = q @ (zs @ [n])" and "zs @ [n] \<noteq> []" by simp_all
  then have "strict_prefix q (dir @ [n])" by (metis strict_prefixI' neq_Nil_conv)
  with assms show "fs q = Some Dir" unfolding wf_fs_def by blast
qed

lemma example_fs_dom:
  "example_fs p \<noteq> None \<Longrightarrow>
     p \<in> {[], [''repo''], [''repo'', ''.git''], [''repo'', ''agelum''],
          [''repo'', ''agelum'', ''tasks''], [''repo'', ''agelum'', ''tasks'', ''pending''],
          [''repo'', ''agelum'', ''tasks'', ''doing''], [''repo'', ''agelum'', ''tasks'', ''done''],
          [''repo'', ''agelum'', ''tasks'', ''done'', ''03 Fix bug (5).md'']}"
  by (simp add: example_fs_def split: if_splits)

lemma wf_example_fs: "wf_fs example_fs"
  unfolding wf_fs_def
proof (intro allI impI, elim conjE)
  fix p q assume "example_fs p \<noteq> None" and q: "strict_prefix q p"
  from example_fs_dom [OF this(1)]
  have "q \<in> set (butlast (prefixes p)) \<longrightarrow> example_fs q = Some Dir"
    by (elim insertE) (auto simp: example_fs_def)
  moreover have "q \<in> set (butlast (prefixes p))"
    using q prefix_cases [of q p] by (auto simp: strict_prefix_def)
  ultimately show "example_fs q = Some Dir" by simp
qed

lemma create_resolvedFileName_path:
  assumes "create_resolvedFileName fmt a = Inr n"
  shows "path_join dir [n] = dir @ [n]"
proof -
  from assms obtain x where "n = ensureMdExtension (sanitizeFileNamePart x)"
    by (auto simp: create_resolvedFileName_def split: sum.splits)
  then show ?thesis by (simp add: create_path)
qed

lemma create_case_Inr:
  assumes "create_case fmt now agelumPath fs a = (fs', Inr r)"
  obtains n fs1 frontmatter where "create_resolvedFileName fmt a = Inr n"
    and "mkdirSync (targetDir_of agelumPath (cr_type a) (or_default (cr_state a) Pending)) fs = Inr fs1"
    and "\<not> existsSync fs1
           (path_join (targetDir_of agelumPath (cr_type a) (or_default (cr_state a) Pending)) [n])"
    and "buildFrontmatter fmt now (cr_type a) (cr_title a) (Some (or_default (cr_state a) Pending))
           (cr_priority a) (cr_storyPoints a) = Inr frontmatter"
    and "writeFileSync
           (path_join (targetDir_of agelumPath (cr_type a) (or_default (cr_state a) Pending)) [n])
           (frontmatter @ create_body (cr_title a) (or_default (cr_content a) [])) fs1 = Inr fs'"
    and "r = CreateResult
           (path_join (targetDir_of agelumPath (cr_type a) (or_default (cr_state a) Pending)) [n])"
  using assms by (auto simp: create_case_def Let_def split: if_splits sum.splits)

lemma create_case_exists:
  assumes "create_resolvedFileName fmt a = Inr n"
    and "mkdirSync (targetDir_of agelumPath (cr_type a) (or_default (cr_state a) Pending)) fs = Inr fs1"
    and "existsSync fs1
           (path_join (targetDir_of agelumPath (cr_type a) (or_default (cr_state a) Pending)) [n])"
  shows "create_case fmt now agelumPath fs a =
           (fs1, Inl (AlreadyExists
              (path_join (targetDir_of agelumPath (cr_type a) (or_default (cr_state a) Pending)) [n])))"
  using assms by (simp add: create_case_def Let_def)

lemma create_resolvedFileName_content:
  "create_resolvedFileName fmt (a\<lparr>cr_content := c\<rparr>) = create_resolvedFileName fmt a"
  by (simp add: create_resolvedFileName_def split: option.splits)

lemma create_twice:
  assumes "create_case fmt now agelumPath fs a = (fs', Inr r)"
  shows "\<exists>p content. r = CreateResult p \<and> fs' p = Some (File content) \<and>
           create_case fmt now' agelumPath fs' (a\<lparr>cr_content := c'\<rparr>) =
             (fs', Inl (AlreadyExists p))"
proof -
  define dir where "dir = targetDir_of agelumPath (cr_type a) (or_default (cr_state a) Pending)"
  from assms obtain n fs1 frontmatter where n: "create_resolvedFileName fmt a = Inr n"
    and mk: "mkdirSync dir fs = Inr fs1"
    and free: "\<not> existsSync fs1 (path_join dir [n])"
    and wr: "writeFileSync (path_join dir [n])
           (frontmatter @ create_body (cr_title a) (or_default (cr_content a) [])) fs1 = Inr fs'"
    and r: "r = CreateResult (path_join dir [n])"
    unfolding dir_def by (rule create_case_Inr)
  define content where "content = frontmatter @ create_body (cr_title a) (or_default (cr_content a) [])"
  have fs': "fs' = fs1(path_join dir [n] \<mapsto> File content)"
    using writeFileSync_result [OF wr] by (simp add: content_def)
  have dirs: "fs' q = Some Dir" if "prefix q dir" for q
  proof -
    have "fs1 q = Some Dir" using mk that by (rule mkdirSync_made)
    moreover from this free have "q \<noteq> path_join dir [n]" by (auto simp: existsSync_def)
    ultimately show ?thesis by (simp add: fs')
  qed
  then have mk': "mkdirSync dir fs' = Inr fs'" by (simp add: mkdirSync_idem)
  have ex: "existsSync fs' (path_join dir [n])" by (simp add: fs' existsSync_def)
  have "create_case fmt now' agelumPath fs' (a\<lparr>cr_content := c'\<rparr>) =
          (fs', Inl (AlreadyExists (path_join dir [n])))"
    using create_case_exists [of fmt "a\<lparr>cr_content := c'\<rparr>" n agelumPath fs' fs' now'] n mk' ex
    by (simp add: create_resolvedFileName_content dir_def)
  moreover have "fs' (path_join dir [n]) = Some (File content)" by (simp add: fs')
  ultimately show ?thesis using r by blast
qed

text \<open>
  C4. In a well-formed file system, when the file name resolves and something is at the
  target path, \<open>create\<close> answers \<open>AlreadyExists\<close> for that path and returns the file
  system as it was: nothing is written. After a successful \<open>create\<close>, a second one with
  the same identity fields (whatever its content and time stamp) answers
  \<open>AlreadyExists\<close> for the path of the first and returns the file system as it was, so
  the file of the first call keeps its content.
\<close>

theorem create_AlreadyExists:
  "(wf_fs fs \<and> create_resolvedFileName fmt a = Inr n \<and>
    existsSync fs
      (path_join (targetDir_of agelumPath (cr_type a) (or_default (cr_state a) Pending)) [n]) \<longrightarrow>
      create_case fmt now agelumPath fs a =
        (fs, Inl (AlreadyExists
           (path_join (targetDir_of agelumPath (cr_type a) (or_default (cr_state a) Pending)) [n])))) \<and>
   (create_case fmt now agelumPath fs a = (fs', Inr r) \<longrightarrow>
      (\<exists>p content. r = CreateResult p \<and> fs' p = Some (File content) \<and>
         create_case fmt now' agelumPath fs' (a\<lparr>cr_content := c'\<rparr>) =
           (fs', Inl (AlreadyExists p))))"
proof (intro conjI impI)
  define dir where "dir = targetDir_of agelumPath (cr_type a) (or_default (cr_state a) Pending)"
  assume h: "wf_fs fs \<and> create_resolvedFileName fmt a = Inr n \<and>
    existsSync fs
      (path_join (targetDir_of agelumPath (cr_type a) (or_default (cr_state a) Pending)) [n])"
  then have p: "path_join dir [n] = dir @ [n]"
    using create_resolvedFileName_path by blast
  with h have "fs (dir @ [n]) \<noteq> None" by (simp add: existsSync_def dir_def)
  with h have "mkdirSync dir fs = Inr fs" using wf_fs_mkdir_parent by blast
  with h show "create_case fmt now agelumPath fs a =
        (fs, Inl (AlreadyExists
           (path_join (targetDir_of agelumPath (cr_type a) (or_default (cr_state a) Pending)) [n])))"
    using create_case_exists [of fmt a n agelumPath fs fs now] by (simp add: dir_def)
next
  assume "create_case fmt now agelumPath fs a = (fs', Inr r)"
  then show "\<exists>p content. r = CreateResult p \<and> fs' p = Some (File content) \<and>
         create_case fmt now' agelumPath fs' (a\<lparr>cr_content := c'\<rparr>) =
           (fs', Inl (AlreadyExists p))"
    by (rule create_twice)
qed

lemma example_create_name:
  "create_resolvedFileName fmt_unused (example_create st) = Inr ''03 Fix bug (5).md''"
  unfolding example_create_def by code_simp

lemma example_create_pending:
  "snd (create_case fmt_unused example_now example_agelum example_fs (example_create None)) =
     Inr (CreateResult [''repo'', ''agelum'', ''tasks'', ''pending'', ''03 Fix bug (5).md''])"
  unfolding example_create_def example_now_def example_agelum_def example_fs_def by code_simp

theorem create_AlreadyExists_witness:
  "create_case fmt_unused example_now example_agelum example_fs (example_create (Some Done)) =
     (example_fs,
      Inl (AlreadyExists [''repo'', ''agelum'', ''tasks'', ''done'', ''03 Fix bug (5).md''])) \<and>
   snd (create_case fmt_unused ''2026-02-02T00:00:00.000Z'' example_agelum
          (fst (create_case fmt_unused example_now example_agelum example_fs (example_create None)))
          ((example_create None)\<lparr>cr_content := Some ''Other''\<rparr>)) =
     Inl (AlreadyExists [''repo'', ''agelum'', ''tasks'', ''pending'', ''03 Fix bug (5).md''])"
proof
  have dir: "targetDir_of example_agelum (cr_type (example_create (Some Done)))
        (or_default (cr_state (example_create (Some Done))) Pending) =
      [''repo'', ''agelum'', ''tasks'', ''done'']"
    by (simp add: example_create_def or_default_def path_join_def push_segment_def
        example_agelum_def)
  have fp: "path_join [''repo'', ''agelum'', ''tasks'', ''done''] [''03 Fix bug (5).md''] =
      [''repo'', ''agelum'', ''tasks'', ''done'', ''03 Fix bug (5).md'']"
    by (simp add: path_join_def push_segment_def)
  have "existsSync example_fs [''repo'', ''agelum'', ''tasks'', ''done'', ''03 Fix bug (5).md'']"
    by (simp add: existsSync_def example_fs_def)
  then show "create_case fmt_unused example_now example_agelum example_fs
       (example_create (Some Done)) =
     (example_fs,
      Inl (AlreadyExists [''repo'', ''agelum'', ''tasks'', ''done'', ''03 Fix bug (5).md'']))"
    using create_AlreadyExists [where fmt = fmt_unused and a = "example_create (Some Done)"
        and n = "''03 Fix bug (5).md''" and agelumPath = example_agelum and fs = example_fs
        and now = example_now]
      example_create_name [of "Some Done"] wf_example_fs
    by (simp add: dir fp)
next
  let ?first = "create_case fmt_unused example_now example_agelum example_fs (example_create None)"
  have "?first =
      (fst ?first, Inr (CreateResult [''repo'', ''agelum'', ''tasks'', ''pending'', ''03 Fix bug (5).md'']))"
    using example_create_pending by (simp add: prod_eq_iff)
  then show "snd (create_case fmt_unused ''2026-02-02T00:00:00.000Z'' example_agelum (fst ?first)
          ((example_create None)\<lparr>cr_content := Some ''Other''\<rparr>)) =
     Inl (AlreadyExists [''repo'', ''agelum'', ''tasks'', ''pending'', ''03 Fix bug (5).md''])"
    using create_AlreadyExists [where fmt = fmt_unused and a = "example_create None"
        and agelumPath = example_agelum and fs = example_fs and now = example_now
        and fs' = "fst ?first"
        and r = "CreateResult [''repo'', ''agelum'', ''tasks'', ''pending'', ''03 Fix bug (5).md'']"
        and now' = "''2026-02-02T00:00:00.000Z''" and c' = "Some ''Other''"]
    by auto
qed

subsection \<open>create with an explicit file name\<close>

lemma create_resolvedFileName_explicit:
  "cr_fileName a = Some f \<Longrightarrow>
     create_resolvedFileName fmt a = Inr (ensureMdExtension (sanitizeFileNamePart f))"
  by (simp add: create_resolvedFileName_def)

lemma buildFileName_task_bare:
  "buildFileName fmt Task title None storyPoints = Inl InvalidTitle \<or>
   buildFileName fmt Task title None storyPoints = Inl PriorityRequired"
  by (simp add: buildFileName_def Let_def)

lemma example_notes: "ensureMdExtension (sanitizeFileNamePart ''notes'') = ''notes.md''"
  by code_simp

subsection \<open>The candidates of get\<close>

text \<open>
  C5. With the file name resolved, \<open>get\<close> for a task without a state answers the first
  of the pending, doing and done candidates (in this order) that exists, with
  \<open>exists: true\<close>, and the pending candidate with \<open>exists: false\<close> when none exists. For
  a task with a state, and for every other type, there is one candidate, and it is
  answered with whether it exists.
\<close>

theorem get_case_probing:
  assumes "get_resolvedFileName fmt a = Inr n"
  shows "(gt_type a = Task \<and> gt_state a = None \<longrightarrow>
            possiblePaths agelumPath (gt_type a) (gt_state a) n =
              [path_join agelumPath [''tasks'', ''pending'', n],
               path_join agelumPath [''tasks'', ''doing'', n],
               path_join agelumPath [''tasks'', ''done'', n]] \<and>
            get_case fmt agelumPath fs a =
              Inr (if existsSync fs (path_join agelumPath [''tasks'', ''pending'', n])
                   then GetResult (path_join agelumPath [''tasks'', ''pending'', n]) True
                   else if existsSync fs (path_join agelumPath [''tasks'', ''doing'', n])
                   then GetResult (path_join agelumPath [''tasks'', ''doing'', n]) True
                   else if existsSync fs (path_join agelumPath [''tasks'', ''done'', n])
                   then GetResult (path_join agelumPath [''tasks'', ''done'', n]) True
                   else GetResult (path_join agelumPath [''tasks'', ''pending'', n]) False)) \<and>
         (gt_type a \<noteq> Task \<or> gt_state a \<noteq> None \<longrightarrow>
            (\<exists>p. possiblePaths agelumPath (gt_type a) (gt_state a) n = [p] \<and>
                 p = (if gt_type a = Task
                      then path_join agelumPath
                             [''tasks'', state_name (or_default (gt_state a) Pending), n]
                      else path_join agelumPath [nonTaskTypeToDir (gt_type a), n]) \<and>
                 get_case fmt agelumPath fs a = Inr (GetResult p (existsSync fs p))))"
  using assms
  by (auto simp: get_case_def possiblePaths_def Let_def or_default_def split: option.splits)

lemma example_get_name:
  "get_resolvedFileName fmt_unused (example_get ''03 Fix bug (5).md'') = Inr ''03 Fix bug (5).md''"
  "get_resolvedFileName fmt_unused (example_get ''04 Other (1).md'') = Inr ''04 Other (1).md''"
  unfolding example_get_def by code_simp+

theorem get_case_probing_witness:
  "get_case fmt_unused example_agelum example_fs (example_get ''03 Fix bug (5).md'') =
     Inr (GetResult [''repo'', ''agelum'', ''tasks'', ''done'', ''03 Fix bug (5).md''] True) \<and>
   get_case fmt_unused example_agelum example_fs (example_get ''04 Other (1).md'') =
     Inr (GetResult [''repo'', ''agelum'', ''tasks'', ''pending'', ''04 Other (1).md''] False)"
proof -
  have a: "gt_type (example_get f) = Task" "gt_state (example_get f) = None" for f
    by (simp_all add: example_get_def)
  have p: "path_join example_agelum [''tasks'', s, ''03 Fix bug (5).md''] =
      [''repo'', ''agelum'', ''tasks'', s, ''03 Fix bug (5).md'']"
    "path_join example_agelum [''tasks'', s, ''04 Other (1).md''] =
      [''repo'', ''agelum'', ''tasks'', s, ''04 Other (1).md'']"
    if "s \<in> {''pending'', ''doing'', ''done''}" for s
    using that by (auto simp: path_join_def push_segment_def example_agelum_def)
  show ?thesis
    using get_case_probing [OF example_get_name(1), of example_agelum example_fs]
      get_case_probing [OF example_get_name(2), of example_agelum example_fs]
    by (simp add: a p existsSync_def example_fs_def)
qed

section \<open>Properties of the root discovery\<close>

lemma ancestors_Nil: "ancestors [] = [[]]"
  by (simp add: ancestors_def)

lemma ancestors_step: "p \<noteq> [] \<Longrightarrow> ancestors p = p # ancestors (path_dirname p)"
proof -
  assume "p \<noteq> []"
  then have "p = butlast p @ [last p]" by simp
  then have "prefixes p = prefixes (butlast p) @ [p]"
    using prefixes_snoc [of "butlast p" "last p"] by simp
  then show ?thesis by (simp add: ancestors_def path_dirname_def)
qed

lemma path_dirname_fixed: "path_dirname p = p \<longleftrightarrow> p = []"
proof
  assume "path_dirname p = p"
  then have "length (butlast p) = length p" by (simp add: path_dirname_def)
  then have "length p - 1 = length p" by (simp only: length_butlast)
  then show "p = []" by (cases p) simp_all
next
  assume "p = []" then show "path_dirname p = p" by (simp add: path_dirname_def)
qed

lemma git_path: "path_join d [''.git''] = d @ [''.git'']"
  by (rule path_join_component) simp_all

lemma walk_find:
  "walk fs depth p =
     find (\<lambda>d. existsSync fs (d @ [''.git''])) (take (MAX_DEPTH - depth) (ancestors p))"
proof (induction fs depth p rule: walk.induct)
  case (1 fs depth currentPath)
  show ?case
  proof (cases "depth < MAX_DEPTH")
    case False
    then show ?thesis by (subst walk.simps) simp
  next
    case True
    then obtain k where k: "MAX_DEPTH - depth = Suc k" and k': "MAX_DEPTH - (depth + 1) = k"
      by (cases "MAX_DEPTH - depth") auto
    show ?thesis
    proof (cases "existsSync fs (currentPath @ [''.git''])")
      case found: True
      have "ancestors currentPath = currentPath # tl (ancestors currentPath)"
        by (cases "currentPath = []") (simp_all add: ancestors_Nil ancestors_step)
      then have "take (Suc k) (ancestors currentPath) =
          currentPath # take k (tl (ancestors currentPath))"
        by (metis take_Suc_Cons)
      with True found k show ?thesis
        by (subst walk.simps) (simp add: git_path)
    next
      case missing: False
      show ?thesis
      proof (cases "currentPath = []")
        case True
        with \<open>depth < MAX_DEPTH\<close> missing k show ?thesis
          by (subst walk.simps) (simp add: git_path path_dirname_fixed ancestors_Nil)
      next
        case False
        then have "path_dirname currentPath \<noteq> currentPath" by (simp add: path_dirname_fixed)
        moreover from this have "walk fs (depth + 1) (path_dirname currentPath) =
            find (\<lambda>d. existsSync fs (d @ [''.git'']))
              (take (MAX_DEPTH - (depth + 1)) (ancestors (path_dirname currentPath)))"
          using "1.IH" [OF \<open>depth < MAX_DEPTH\<close>] missing by (simp add: git_path)
        ultimately show ?thesis
          using \<open>depth < MAX_DEPTH\<close> missing k k' False
          by (subst walk.simps) (simp add: git_path Let_def ancestors_step)
      qed
    qed
  qed
qed

lemma find_Some_set: "find P xs = Some x \<Longrightarrow> x \<in> set xs \<and> P x"
  by (induction xs) (auto split: if_splits)

lemma findRepoRootPath_find:
  "findRepoRootPath cwd globalConfigRoot fs =
     (case find (\<lambda>d. existsSync fs (d @ [''.git''])) (take MAX_DEPTH (ancestors cwd)) of
        Some d \<Rightarrow> Some d
      | None \<Rightarrow>
          (case globalConfigRoot of
             None \<Rightarrow> None
           | Some g \<Rightarrow> if existsSync fs g then Some g else None))"
  by (simp add: findRepoRootPath_def walk_find)

text \<open>
  C7. \<open>findRepoRootPath\<close> answers the nearest of the first ten directories on the way
  from the working directory up to the root directory that has an entry \<open>.git\<close>; when
  none of them has one, it answers the hint if the hint is given and exists, whether or
  not it has a \<open>.git\<close>; otherwise it answers nothing, and the call then fails with
  \<open>RootNotFound\<close> and leaves the file system as it was. So a root is always one of
  those ten directories, holding \<open>.git\<close>, or the existing hint.
\<close>

theorem findRepoRootPath_spec:
  "findRepoRootPath cwd globalConfigRoot fs =
     (case find (\<lambda>d. existsSync fs (d @ [''.git''])) (take 10 (ancestors cwd)) of
        Some d \<Rightarrow> Some d
      | None \<Rightarrow>
          (case globalConfigRoot of
             None \<Rightarrow> None
           | Some g \<Rightarrow> if existsSync fs g then Some g else None)) \<and>
   (findRepoRootPath cwd globalConfigRoot fs = None \<longrightarrow>
      call_tool fmt now cwd globalConfigRoot fs req = (fs, Inl RootNotFound)) \<and>
   (\<forall>r. findRepoRootPath cwd globalConfigRoot fs = Some r \<longrightarrow>
      (r \<in> set (take 10 (ancestors cwd)) \<and> existsSync fs (r @ [''.git''])) \<or>
      (globalConfigRoot = Some r \<and> existsSync fs r))"
proof (intro conjI allI impI)
  show "findRepoRootPath cwd globalConfigRoot fs =
     (case find (\<lambda>d. existsSync fs (d @ [''.git''])) (take 10 (ancestors cwd)) of
        Some d \<Rightarrow> Some d
      | None \<Rightarrow>
          (case globalConfigRoot of
             None \<Rightarrow> None
           | Some g \<Rightarrow> if existsSync fs g then Some g else None))"
    using findRepoRootPath_find [of cwd globalConfigRoot fs] by (simp add: MAX_DEPTH_def)
next
  assume "findRepoRootPath cwd globalConfigRoot fs = None"
  then show "call_tool fmt now cwd globalConfigRoot fs req = (fs, Inl RootNotFound)"
    by (simp add: call_tool_def)
next
  fix r assume r: "findRepoRootPath cwd globalConfigRoot fs = Some r"
  show "(r \<in> set (take 10 (ancestors cwd)) \<and> existsSync fs (r @ [''.git''])) \<or>
      (globalConfigRoot = Some r \<and> existsSync fs r)"
  proof (cases "find (\<lambda>d. existsSync fs (d @ [''.git''])) (take MAX_DEPTH (ancestors cwd))")
    case None
    with r show ?thesis
      by (auto simp: findRepoRootPath_find split: option.splits if_splits)
  next
    case (Some d)
    with r have "d = r" by (simp add: findRepoRootPath_find)
    with Some show ?thesis
      using find_Some_set [of "\<lambda>d. existsSync fs (d @ [''.git''])" "take MAX_DEPTH (ancestors cwd)" r]
      by (simp add: MAX_DEPTH_def)
  qed
qed

theorem findRepoRootPath_spec_witness:
  "findRepoRootPath [''repo'', ''agelum'', ''tasks''] None example_fs = Some [''repo''] \<and>
   findRepoRootPath example_deep (Some [''repo'', ''agelum'']) example_fs =
     Some [''repo'', ''agelum''] \<and>
   findRepoRootPath example_deep None example_fs = None \<and>
   call_tool fmt_unused example_now example_deep None example_fs (Other ''list'') =
     (example_fs, Inl RootNotFound)"
proof -
  have near: "find (\<lambda>d. existsSync example_fs (d @ [''.git'']))
      (take 10 (ancestors [''repo'', ''agelum'', ''tasks''])) = Some [''repo'']"
    by (simp add: ancestors_def existsSync_def example_fs_def)
  have deep: "find (\<lambda>d. existsSync example_fs (d @ [''.git'']))
      (take 10 (ancestors example_deep)) = None"
    by (simp add: ancestors_def existsSync_def example_fs_def example_deep_def)
  have hint: "existsSync example_fs [''repo'', ''agelum'']"
    by (simp add: existsSync_def example_fs_def)
  have 1: "findRepoRootPath [''repo'', ''agelum'', ''tasks''] None example_fs = Some [''repo'']"
    using findRepoRootPath_spec [of "[''repo'', ''agelum'', ''tasks'']" None example_fs]
    by (simp add: near)
  have 2: "findRepoRootPath example_deep (Some [''repo'', ''agelum'']) example_fs =
      Some [''repo'', ''agelum'']"
    using findRepoRootPath_spec [of example_deep "Some [''repo'', ''agelum'']" example_fs]
    by (simp add: deep hint)
  have 3: "findRepoRootPath example_deep None example_fs = None"
    using findRepoRootPath_spec [of example_deep None example_fs]
    by (simp add: deep)
  have 4: "call_tool fmt_unused example_now example_deep None example_fs (Other ''list'') =
      (example_fs, Inl RootNotFound)"
    using findRepoRootPath_spec [of example_deep None example_fs fmt_unused example_now
        "Other ''list''"] 3
    by simp
  from 1 2 3 4 show ?thesis by simp
qed

section \<open>The file names of create, move and get\<close>

text \<open>
  Once the root is found and the directories are made, a call is the body of its
  handler, run on the file system the directories were made in.
\<close>

lemma call_tool_after_prologue:
  assumes "findRepoRootPath cwd globalConfigRoot fs = Some repoRootPath"
    and "ensureAgelumStructure repoRootPath fs = (fs1, Inr agelumPath)"
  shows "call_tool fmt now cwd globalConfigRoot fs (Create c) = create_case fmt now agelumPath fs1 c"
    and "call_tool fmt now cwd globalConfigRoot fs (Move m) = move_case fmt agelumPath fs1 m"
    and "call_tool fmt now cwd globalConfigRoot fs (Get g) = (fs1, get_case fmt agelumPath fs1 g)"
  using assms by (simp_all add: call_tool_def)

subsection \<open>Derived file names\<close>

text \<open>
  A name that \<open>buildFileName\<close> builds is settled and ends in \<open>.md\<close>, provided the text
  of a number is solid (as the digits, sign, point and letters that \<open>String\<close> prints
  are). Sanitising it and adding the extension change nothing, so without an explicit
  file name \<open>create\<close>, \<open>move\<close> and \<open>get\<close> resolve the same name from the same title,
  priority and story points.
\<close>

lemma dropWhile_id: "xs = [] \<or> \<not> P (hd xs) \<Longrightarrow> dropWhile P xs = xs"
  by (cases xs) auto

lemma tidy_ws_collapse: "tidy_ws s \<Longrightarrow> collapse_ws s = s"
  by (induction s rule: tidy_ws.induct) auto

lemma hd_collapse_ws:
  "xs = [] \<or> \<not> is_space (hd xs) \<Longrightarrow> collapse_ws xs = [] \<or> \<not> is_space (hd (collapse_ws xs))"
  by (cases xs) auto

lemma hd_dropWhile_space: "dropWhile is_space cs = [] \<or> \<not> is_space (hd (dropWhile is_space cs))"
  using hd_dropWhile [of is_space cs] by auto

lemma tidy_ws_Cons_space:
  "tidy_ws r \<Longrightarrow> r = [] \<or> \<not> is_space (hd r) \<Longrightarrow> tidy_ws (CHR 0x20 # r)"
  by (cases r) auto

lemma tidy_ws_Cons: "\<not> is_space c \<Longrightarrow> tidy_ws r \<Longrightarrow> tidy_ws (c # r)"
  by (cases r) auto

lemma collapse_ws_tidy: "tidy_ws (collapse_ws s)"
proof (induction s rule: collapse_ws.induct)
  case 1
  show ?case by simp
next
  case (2 c cs)
  show ?case
  proof (cases "is_space c")
    case True
    with 2 have "tidy_ws (collapse_ws (dropWhile is_space cs))" by simp
    moreover have "collapse_ws (dropWhile is_space cs) = [] \<or>
        \<not> is_space (hd (collapse_ws (dropWhile is_space cs)))"
      using hd_collapse_ws [OF hd_dropWhile_space] .
    ultimately show ?thesis using True by (simp add: tidy_ws_Cons_space)
  next
    case False
    with 2 show ?thesis by (simp add: tidy_ws_Cons)
  qed
qed

lemma tidy_ws_appendD: "tidy_ws (xs @ ys) \<Longrightarrow> tidy_ws xs \<and> tidy_ws ys"
proof (induction xs rule: tidy_ws.induct)
  case 1
  then show ?case by simp
next
  case (2 c)
  then show ?case by (cases ys) auto
next
  case (3 c d cs)
  then show ?case by auto
qed

lemma tidy_ws_append:
  "tidy_ws xs \<Longrightarrow> tidy_ws ys \<Longrightarrow> xs = [] \<or> \<not> is_space (last xs) \<Longrightarrow> tidy_ws (xs @ ys)"
proof (induction xs rule: tidy_ws.induct)
  case 1
  then show ?case by simp
next
  case (2 c)
  then show ?case by (simp add: tidy_ws_Cons)
next
  case (3 c d cs)
  then show ?case by auto
qed

lemma tidy_ws_no_space: "\<forall>c \<in> set s. \<not> is_space c \<Longrightarrow> tidy_ws s"
  by (induction s rule: tidy_ws.induct) auto

lemma trim_infix: "\<exists>a b. s = a @ trim s @ b"
proof -
  let ?d = "dropWhile is_space s"
  have "s = takeWhile is_space s @ ?d" by simp
  moreover have "?d = rev (dropWhile is_space (rev ?d)) @ rev (takeWhile is_space (rev ?d))"
    by (metis rev_append rev_rev_ident takeWhile_dropWhile_id)
  ultimately have "s = takeWhile is_space s @ trim s @ rev (takeWhile is_space (rev ?d))"
    by (simp add: trim_def)
  then show ?thesis by blast
qed

lemma tidy_ws_trim: "tidy_ws s \<Longrightarrow> tidy_ws (trim s)"
proof -
  assume t: "tidy_ws s"
  obtain a b where "s = a @ trim s @ b" using trim_infix by blast
  with t have "tidy_ws (a @ trim s @ b)" by simp
  then show ?thesis using tidy_ws_appendD by blast
qed

lemma trim_ends:
  "trim s \<noteq> [] \<Longrightarrow> \<not> is_space (hd (trim s)) \<and> \<not> is_space (last (trim s))"
proof -
  assume ne: "trim s \<noteq> []"
  let ?d = "dropWhile is_space s"
  let ?e = "dropWhile is_space (rev ?d)"
  have e: "?e \<noteq> []" using ne by (simp add: trim_def)
  then have "\<not> is_space (hd ?e)" using hd_dropWhile [of is_space "rev ?d"] by simp
  then have l: "\<not> is_space (last (trim s))" using e by (simp add: trim_def last_rev)
  have d: "?d \<noteq> []"
  proof
    assume a: "?d = []"
    have "?e = []" unfolding a by simp
    with e show False by simp
  qed
  then have hd: "\<not> is_space (hd ?d)" using hd_dropWhile [of is_space s] by simp
  obtain b where "?d = trim s @ b"
    by (metis trim_def rev_append rev_rev_ident takeWhile_dropWhile_id)
  with ne have "hd (trim s) = hd ?d" by (metis hd_append2)
  with hd l show ?thesis by simp
qed

lemma trim_id: "s = [] \<or> (\<not> is_space (hd s) \<and> \<not> is_space (last s)) \<Longrightarrow> trim s = s"
proof (cases "s = []")
  case True
  then show ?thesis by (simp add: trim_def)
next
  case False
  assume "s = [] \<or> (\<not> is_space (hd s) \<and> \<not> is_space (last s))"
  with False have h: "\<not> is_space (hd s)" and l: "\<not> is_space (last s)" by simp_all
  from h False have "dropWhile is_space s = s" by (simp add: dropWhile_id)
  moreover from l False have "dropWhile is_space (rev s) = rev s"
    by (simp add: dropWhile_id hd_rev)
  ultimately show ?thesis by (simp add: trim_def)
qed

lemma sanitize_settled: "settled s \<Longrightarrow> sanitizeFileNamePart s = s"
proof -
  assume s: "settled s"
  then have "map (\<lambda>c. if is_separator c then CHR 0x2D else c) s = s"
    by (simp add: settled_def map_idI)
  moreover from s have "filter (\<lambda>c. \<not> is_reserved c) s = s"
    by (simp add: settled_def)
  moreover from s have "collapse_ws s = s" by (simp add: settled_def tidy_ws_collapse)
  moreover from s have "trim s = s" by (simp add: settled_def trim_id)
  ultimately show ?thesis by (simp add: sanitizeFileNamePart_def)
qed

lemma sanitize_is_settled: "settled (sanitizeFileNamePart x)"
proof -
  let ?m = "filter (\<lambda>c. \<not> is_reserved c) (map (\<lambda>c. if is_separator c then CHR 0x2D else c) x)"
  have m: "\<forall>c \<in> set ?m. \<not> is_reserved c \<and> \<not> is_separator c"
    by (auto simp: is_separator_def)
  have sp: "\<not> is_reserved CHR 0x20 \<and> \<not> is_separator CHR 0x20"
    by (simp add: is_reserved_def is_separator_def)
  have "set (sanitizeFileNamePart x) \<subseteq> insert CHR 0x20 (set ?m)"
    using set_trim [of "collapse_ws ?m"] set_collapse_ws [of ?m]
    by (auto simp: sanitizeFileNamePart_def)
  with m sp have "\<forall>c \<in> set (sanitizeFileNamePart x). \<not> is_reserved c \<and> \<not> is_separator c"
    by blast
  moreover have "tidy_ws (sanitizeFileNamePart x)"
    by (simp add: sanitizeFileNamePart_def tidy_ws_trim collapse_ws_tidy)
  moreover have "sanitizeFileNamePart x = [] \<or>
      (\<not> is_space (hd (sanitizeFileNamePart x)) \<and> \<not> is_space (last (sanitizeFileNamePart x)))"
    using trim_ends [of "collapse_ws ?m"] by (auto simp: sanitizeFileNamePart_def)
  ultimately show ?thesis by (simp add: settled_def)
qed

lemma solid_append: "solid (xs @ ys) \<longleftrightarrow> solid xs \<and> solid ys"
  by (auto simp: solid_def)

lemma solid_settled: "solid s \<Longrightarrow> settled s"
proof -
  assume w: "solid s"
  then have "tidy_ws s" by (simp add: solid_def tidy_ws_no_space)
  moreover from w have "s = [] \<or> (\<not> is_space (hd s) \<and> \<not> is_space (last s))"
    by (cases "s = []") (simp_all add: solid_def)
  ultimately show ?thesis using w by (simp add: settled_def solid_def)
qed

lemma settled_space:
  assumes "settled a" and "a \<noteq> []" and "settled b" and "b \<noteq> []"
  shows "settled (a @ CHR 0x20 # b)"
proof -
  have sp: "\<not> is_reserved CHR 0x20 \<and> \<not> is_separator CHR 0x20"
    by (simp add: is_reserved_def is_separator_def)
  have "tidy_ws (CHR 0x20 # b)" using assms(3,4) by (simp add: settled_def tidy_ws_Cons_space)
  moreover have "\<not> is_space (last a)" using assms(1,2) by (simp add: settled_def)
  ultimately have "tidy_ws (a @ CHR 0x20 # b)" using assms(1) by (simp add: settled_def tidy_ws_append)
  moreover have "\<not> is_space (hd (a @ CHR 0x20 # b))" using assms(1,2) by (simp add: settled_def)
  moreover have "\<not> is_space (last (a @ CHR 0x20 # b))" using assms(3,4) by (simp add: settled_def)
  ultimately show ?thesis using assms(1,3) sp by (auto simp: settled_def)
qed

lemma settled_word:
  assumes "settled a" and "solid w"
  shows "settled (a @ w)"
proof (cases "w = []")
  case True
  with assms(1) show ?thesis by simp
next
  case False
  have "tidy_ws w" using assms(2) by (simp add: solid_def tidy_ws_no_space)
  moreover have "a = [] \<or> \<not> is_space (last a)" using assms(1) by (auto simp: settled_def)
  ultimately have "tidy_ws (a @ w)" using assms(1) by (simp add: settled_def tidy_ws_append)
  moreover have "\<not> is_space (hd (a @ w))"
    using assms False by (cases "a = []") (simp_all add: settled_def solid_def)
  moreover have "\<not> is_space (last (a @ w))" using assms(2) False by (simp add: solid_def)
  ultimately show ?thesis using assms by (auto simp: settled_def solid_def)
qed

lemma solid_digit: "d < 10 \<Longrightarrow> solid [digit_char d]"
proof -
  assume "d < 10"
  then have "d = 0 \<or> d = 1 \<or> d = 2 \<or> d = 3 \<or> d = 4 \<or> d = 5 \<or> d = 6 \<or> d = 7 \<or> d = 8 \<or> d = 9"
    by arith
  then show ?thesis
    by (elim disjE)
      (simp_all add: digit_char_def solid_def is_space_def is_reserved_def is_separator_def)
qed

lemma solid_decimal: "solid (decimal n)"
proof (induction n rule: decimal.induct)
  case (1 n)
  show ?case
  proof (cases "n < 10")
    case True
    then show ?thesis by (subst decimal.simps) (simp add: solid_digit)
  next
    case False
    with 1 have "solid (decimal (n div 10))" by simp
    with False show ?thesis by (subst decimal.simps) (simp add: solid_append solid_digit)
  qed
qed

lemma solid_Cons: "solid (c # s) \<longleftrightarrow> solid [c] \<and> solid s"
  by (auto simp: solid_def)

lemma solid_String_num:
  assumes "\<forall>q. solid (fmt q)"
  shows "solid (String_num fmt v)"
proof (cases v)
  case (Num q)
  have "solid ''-''" by (simp add: solid_def is_space_def is_reserved_def is_separator_def)
  then have "solid (CHR ''-'' # decimal n)" for n
    using solid_decimal [of n] solid_Cons by blast
  with Num assms show ?thesis by (simp add: String_num_def solid_decimal)
qed (simp_all add: String_num_def solid_def is_space_def is_reserved_def is_separator_def)

lemma solid_formatPriority:
  assumes "\<forall>q. solid (fmt q)" and "formatPriority fmt v = Inr pr"
  shows "solid pr \<and> pr \<noteq> []"
proof -
  from assms(2) have pr: "pr = padStart 2 CHR ''0'' (String_num fmt (Math_trunc v))"
    by (auto simp: formatPriority_def split: if_splits)
  have "solid (replicate k CHR ''0'')" for k
    by (simp add: solid_def is_space_def is_reserved_def is_separator_def)
  then have "solid pr" using solid_String_num [OF assms(1)] by (simp add: pr padStart_def solid_append)
  moreover have "2 \<le> length pr" by (simp add: pr length_padStart)
  ultimately show ?thesis by auto
qed

lemma ensureMdExtension_settled:
  assumes "settled (xs @ ''.md'')"
  shows "ensureMdExtension (xs @ ''.md'') = xs @ ''.md''"
proof -
  have "trim (xs @ ''.md'') = xs @ ''.md''" using assms by (simp add: settled_def trim_id)
  moreover have "toLowerCase ''.md'' = ''.md''" by code_simp
  then have "endsWith (toLowerCase (xs @ ''.md'')) ''.md''"
    by (simp add: toLowerCase_def endsWith_def)
  ultimately show ?thesis by (simp add: ensureMdExtension_def)
qed

lemma buildFileName_settled:
  assumes "\<forall>q. solid (fmt q)" and "buildFileName fmt type title priority storyPoints = Inr b"
  shows "sanitizeFileNamePart b = b \<and> ensureMdExtension b = b"
proof -
  define t where "t = sanitizeFileNamePart title"
  have t: "settled t" unfolding t_def by (rule sanitize_is_settled)
  have ne: "t \<noteq> []" using assms(2) by (auto simp: buildFileName_def Let_def t_def split: if_splits)
  have par: "solid (''('' @ formatStoryPoints fmt sp @ '').md'')" for sp
    using solid_String_num [OF assms(1), of sp]
    by (simp add: formatStoryPoints_def solid_append)
      (simp add: solid_def is_space_def is_reserved_def is_separator_def)
  have md: "solid ''.md''" by (simp add: solid_def is_space_def is_reserved_def is_separator_def)
  have "\<exists>xs. b = xs @ ''.md'' \<and> settled b"
  proof (cases "type = Task")
    case True
    with assms(2) ne obtain p sp pr where pr: "formatPriority fmt p = Inr pr"
      and b: "b = pr @ '' '' @ t @ '' ('' @ formatStoryPoints fmt sp @ '').md''"
      by (auto simp: buildFileName_def Let_def t_def split: option.splits sum.splits)
    have inner: "settled (t @ CHR 0x20 # (''('' @ formatStoryPoints fmt sp @ '').md''))"
      using t ne solid_settled [OF par [of sp]] by (intro settled_space) simp_all
    have "settled pr" and "pr \<noteq> []"
      using solid_formatPriority [OF assms(1) pr] by (simp_all add: solid_settled)
    then have "settled (pr @ CHR 0x20 # (t @ CHR 0x20 # (''('' @ formatStoryPoints fmt sp @ '').md'')))"
      using settled_space [of pr "t @ CHR 0x20 # (''('' @ formatStoryPoints fmt sp @ '').md'')"] inner
      by simp
    then have "settled b" by (simp add: b)
    moreover have "b = (pr @ '' '' @ t @ '' ('' @ formatStoryPoints fmt sp @ '')'') @ ''.md''"
      by (simp add: b)
    ultimately show ?thesis by blast
  next
    case False
    show ?thesis
    proof (cases storyPoints)
      case None
      with False assms(2) ne have b: "b = t @ ''.md''"
        by (auto simp: buildFileName_def Let_def t_def)
      then show ?thesis using settled_word [OF t md] by blast
    next
      case (Some sp)
      with False assms(2) ne have b: "b = t @ '' ('' @ formatStoryPoints fmt sp @ '').md''"
        by (auto simp: buildFileName_def Let_def t_def)
      have "settled (t @ CHR 0x20 # (''('' @ formatStoryPoints fmt sp @ '').md''))"
        using t ne solid_settled [OF par [of sp]] by (intro settled_space) simp_all
      then have "settled b" by (simp add: b)
      moreover have "b = (t @ '' ('' @ formatStoryPoints fmt sp @ '')'') @ ''.md''"
        by (simp add: b)
      ultimately show ?thesis by blast
    qed
  qed
  then obtain xs where "b = xs @ ''.md''" and "settled b" by blast
  then show ?thesis using sanitize_settled ensureMdExtension_settled by metis
qed

lemma create_resolvedFileName_derived:
  assumes "\<forall>q. solid (fmt q)" and "cr_fileName c = None"
  shows "create_resolvedFileName fmt c =
           buildFileName fmt (cr_type c) (cr_title c) (cr_priority c) (cr_storyPoints c)"
proof (cases "buildFileName fmt (cr_type c) (cr_title c) (cr_priority c) (cr_storyPoints c)")
  case (Inl e)
  with assms(2) show ?thesis by (simp add: create_resolvedFileName_def)
next
  case (Inr b)
  with assms show ?thesis
    using buildFileName_settled [OF assms(1) Inr] by (simp add: create_resolvedFileName_def)
qed

lemma move_sourceFileName_derived:
  assumes "\<forall>q. solid (fmt q)" and "falsy (mv_fileName m)" and "mv_title m = Some title"
    and "title \<noteq> []"
  shows "move_sourceFileName fmt m =
           buildFileName fmt Task title (mv_priority m) (mv_storyPoints m)"
proof (cases "buildFileName fmt Task title (mv_priority m) (mv_storyPoints m)")
  case (Inl e)
  with assms(2,3,4) show ?thesis by (simp add: move_sourceFileName_def or_default_def)
next
  case (Inr b)
  with assms show ?thesis
    using buildFileName_settled [OF assms(1) Inr]
    by (simp add: move_sourceFileName_def or_default_def)
qed

lemma buildFileName_task_present:
  "buildFileName fmt Task title priority storyPoints = Inr b \<Longrightarrow>
     priority \<noteq> None \<and> storyPoints \<noteq> None"
  by (auto simp: buildFileName_def Let_def split: if_splits option.splits)

lemma get_resolvedFileName_derived:
  assumes "\<forall>q. solid (fmt q)" and "falsy (gt_fileName g)" and "gt_title g = Some title"
    and "title \<noteq> []"
    and "buildFileName fmt (gt_type g) title (gt_priority g) (gt_storyPoints g) = Inr b"
  shows "get_resolvedFileName fmt g = Inr b"
proof -
  have b: "ensureMdExtension b = b" using buildFileName_settled [OF assms(1,5)] by simp
  then have "b \<noteq> []" using ensureMdExtension_length [of b] by auto
  then have nf: "\<not> falsy (Some b)" by (simp add: falsy_def)
  have "gt_type g = Task \<longrightarrow> gt_priority g \<noteq> None \<and> gt_storyPoints g \<noteq> None"
    using assms(5) buildFileName_task_present by metis
  then show ?thesis
    using assms(2,3,4,5) b nf
    by (auto simp: get_resolvedFileName_def or_default_def Let_def)
qed

lemma derived_names_agree:
  assumes "\<forall>q. solid (fmt q)"
    and "cr_fileName c = None" and "create_resolvedFileName fmt c = Inr n" and "cr_title c \<noteq> []"
  shows "falsy (gt_fileName g) \<and> gt_type g = cr_type c \<and> gt_title g = Some (cr_title c) \<and>
         gt_priority g = cr_priority c \<and> gt_storyPoints g = cr_storyPoints c \<longrightarrow>
           get_resolvedFileName fmt g = Inr n"
    and "falsy (mv_fileName m) \<and> cr_type c = Task \<and> mv_title m = Some (cr_title c) \<and>
         mv_priority m = cr_priority c \<and> mv_storyPoints m = cr_storyPoints c \<longrightarrow>
           move_sourceFileName fmt m = Inr n"
proof -
  have n: "buildFileName fmt (cr_type c) (cr_title c) (cr_priority c) (cr_storyPoints c) = Inr n"
    using create_resolvedFileName_derived [OF assms(1,2)] assms(3) by simp
  show "falsy (gt_fileName g) \<and> gt_type g = cr_type c \<and> gt_title g = Some (cr_title c) \<and>
         gt_priority g = cr_priority c \<and> gt_storyPoints g = cr_storyPoints c \<longrightarrow>
           get_resolvedFileName fmt g = Inr n"
    using get_resolvedFileName_derived [OF assms(1), of g "cr_title c" n] n assms(4) by auto
  show "falsy (mv_fileName m) \<and> cr_type c = Task \<and> mv_title m = Some (cr_title c) \<and>
         mv_priority m = cr_priority c \<and> mv_storyPoints m = cr_storyPoints c \<longrightarrow>
           move_sourceFileName fmt m = Inr n"
    using move_sourceFileName_derived [OF assms(1), of m "cr_title c"] n assms(4) by auto
qed

subsection \<open>get after create\<close>

text \<open>
  A \<open>get\<close> that resolves the file name a successful \<open>create\<close> resolved, for the same
  type and state, finds the file that was written. An explicit file name that
  sanitising leaves as it is resolves to the same name in both, and so does a derived
  name: without an explicit file name, \<open>get\<close> after \<open>create\<close> finds the file.
\<close>

lemma path_join_append: "path_join (path_join base xs) ys = path_join base (xs @ ys)"
  by (simp add: path_join_def)

lemma targetDir_of_join:
  "path_join (targetDir_of agelumPath type st) [n] =
     (if type = Task then path_join agelumPath [''tasks'', state_name st, n]
      else path_join agelumPath [nonTaskTypeToDir type, n])"
  by (cases type) (simp_all add: path_join_append)

lemma create_then_get:
  assumes "create_case fmt now agelumPath fs c = (fs', Inr r)"
    and "gt_type g = cr_type c" and "gt_state g = cr_state c"
    and "get_resolvedFileName fmt g = create_resolvedFileName fmt c"
  shows "\<exists>p. r = CreateResult p \<and> get_case fmt agelumPath fs' g = Inr (GetResult p True)"
proof -
  define st where "st = or_default (cr_state c) Pending"
  from assms(1) obtain n fs1 frontmatter where n: "create_resolvedFileName fmt c = Inr n"
    and wr: "writeFileSync (path_join (targetDir_of agelumPath (cr_type c) st) [n])
           (frontmatter @ create_body (cr_title c) (or_default (cr_content c) [])) fs1 = Inr fs'"
    and r: "r = CreateResult (path_join (targetDir_of agelumPath (cr_type c) st) [n])"
    unfolding st_def by (rule create_case_Inr)
  define p where "p = path_join (targetDir_of agelumPath (cr_type c) st) [n]"
  have ex: "existsSync fs' p"
    using writeFileSync_result [OF wr] by (simp add: p_def existsSync_def)
  have p': "p = (if cr_type c = Task then path_join agelumPath [''tasks'', state_name st, n]
                 else path_join agelumPath [nonTaskTypeToDir (cr_type c), n])"
    by (simp add: p_def targetDir_of_join)
  have "get_case fmt agelumPath fs' g = Inr (GetResult p True)"
  proof (cases "cr_type c = Task \<and> cr_state c = None")
    case True
    then have "p = path_join agelumPath [''tasks'', ''pending'', n]"
      by (simp add: p' st_def or_default_def)
    with ex True show ?thesis
      using assms(2,3,4) n by (simp add: get_case_def possiblePaths_def)
  next
    case False
    then have "possiblePaths agelumPath (gt_type g) (gt_state g) n = [p]"
      using assms(2,3) by (auto simp: possiblePaths_def p' st_def or_default_def split: option.splits)
    with ex show ?thesis
      using assms(4) n by (simp add: get_case_def)
  qed
  with r show ?thesis by (simp add: p_def)
qed

lemma resolved_names_agree:
  assumes "cr_fileName c = Some f" and "gt_fileName g = Some f"
    and "f \<noteq> []" and "sanitizeFileNamePart f = f"
  shows "get_resolvedFileName fmt g = create_resolvedFileName fmt c"
  using assms
  by (simp add: get_resolvedFileName_def create_resolvedFileName_def falsy_def or_default_def
      Let_def)

lemma buildFileName_title: "buildFileName fmt type title priority storyPoints = Inr b \<Longrightarrow> title \<noteq> []"
  by (auto simp: buildFileName_def Let_def sanitizeFileNamePart_def trim_def split: if_splits)

lemma create_then_get_derived:
  assumes "\<forall>q. solid (fmt q)"
    and "create_case fmt now agelumPath fs c = (fs', Inr r)"
    and "cr_fileName c = None" and "gt_fileName g = None"
    and "gt_type g = cr_type c" and "gt_state g = cr_state c"
    and "gt_title g = Some (cr_title c)"
    and "gt_priority g = cr_priority c" and "gt_storyPoints g = cr_storyPoints c"
  shows "\<exists>p. r = CreateResult p \<and> get_case fmt agelumPath fs' g = Inr (GetResult p True)"
proof -
  from assms(2) obtain n where n: "create_resolvedFileName fmt c = Inr n"
    by (rule create_case_Inr)
  then have "buildFileName fmt (cr_type c) (cr_title c) (cr_priority c) (cr_storyPoints c) = Inr n"
    using create_resolvedFileName_derived [OF assms(1,3)] by simp
  then have "cr_title c \<noteq> []" by (rule buildFileName_title)
  then have "get_resolvedFileName fmt g = Inr n"
    using derived_names_agree(1) [OF assms(1,3) n, of g] assms(4,5,7,8,9)
    by (simp add: falsy_def)
  then show ?thesis
    using create_then_get [OF assms(2,5,6)] n by simp
qed

text \<open>
  C2. The claim is that \<open>move\<close> resolves the file name as \<open>create\<close> does. On the
  explicit file name \<open>Fix: bug\<close> it does not: \<open>create\<close> sanitises it and resolves
  \<open>Fix bug.md\<close>, \<open>move\<close> only adds the extension and resolves \<open>Fix: bug.md\<close>. So in
  the repository \<open>/repo\<close> the call of \<open>create\<close> makes the task, and the call of \<open>move\<close>
  with the same fields, right after it, does not find it.
\<close>

theorem move_fileName_not_sanitized:
  "create_resolvedFileName fmt_unused example_create_colon = Inr ''Fix bug.md'' \<and>
   move_sourceFileName fmt_unused example_move_colon = Inr ''Fix: bug.md'' \<and>
   snd (call_tool fmt_unused example_now [''repo''] None example_fs (Create example_create_colon)) =
     Inr (CreateResult [''repo'', ''agelum'', ''tasks'', ''pending'', ''Fix bug.md'']) \<and>
   snd (call_tool fmt_unused example_now [''repo''] None
          (fst (call_tool fmt_unused example_now [''repo''] None example_fs
                  (Create example_create_colon)))
          (Move example_move_colon)) =
     Inl (SourceNotFound [''repo'', ''agelum'', ''tasks'', ''pending'', ''Fix: bug.md''])"
  unfolding example_create_colon_def example_move_colon_def example_now_def example_fs_def
  by code_simp

text \<open>
  C6. The claim is that a \<open>get\<close> with the fields of a successful \<open>create\<close> finds the
  file. With the explicit file name \<open>Fix: bug\<close> it does not: in the repository \<open>/repo\<close>
  the call of \<open>create\<close> writes \<open>Fix bug.md\<close> and answers its path; the call of \<open>get\<close>
  right after it, which does not sanitise an explicit file name, looks for
  \<open>Fix: bug.md\<close> and answers that path with \<open>exists: false\<close>.
\<close>

theorem create_then_get_explicit_fileName:
  "snd (call_tool fmt_unused example_now [''repo''] None example_fs (Create example_create_colon)) =
     Inr (CreateResult [''repo'', ''agelum'', ''tasks'', ''pending'', ''Fix bug.md'']) \<and>
   snd (call_tool fmt_unused example_now [''repo''] None
          (fst (call_tool fmt_unused example_now [''repo''] None example_fs
                  (Create example_create_colon)))
          (Get example_get_colon)) =
     Inr (GetResult [''repo'', ''agelum'', ''tasks'', ''pending'', ''Fix: bug.md''] False)"
  unfolding example_create_colon_def example_get_colon_def example_now_def example_fs_def
  by code_simp

section \<open>The operations as the request handler runs them\<close>

subsection \<open>The prologue\<close>

lemma mkdir_each_keeps:
  "mkdir_each agelumPath dirs fs = (fs', None) \<Longrightarrow>
     (\<forall>p. fs p \<noteq> None \<longrightarrow> fs' p = fs p) \<and> (\<forall>p. file_content fs' p = file_content fs p)"
proof (induction dirs arbitrary: fs)
  case Nil
  then show ?case by simp
next
  case (Cons d ds)
  from Cons.prems obtain fs1 where mk: "mkdirSync (path_join agelumPath [d]) fs = Inr fs1"
    and rest: "mkdir_each agelumPath ds fs1 = (fs', None)"
    by (auto split: sum.splits)
  from Cons.IH [OF rest] mkdirSync_keeps [OF mk] mkdirSync_file_content [OF mk]
  show ?case by (metis option.distinct(1))
qed

lemma mkdir_each_made:
  "mkdir_each agelumPath dirs fs = (fs', None) \<Longrightarrow> d \<in> set dirs \<Longrightarrow>
     prefix q (path_join agelumPath [d]) \<Longrightarrow> fs' q = Some Dir"
proof (induction dirs arbitrary: fs)
  case Nil
  then show ?case by simp
next
  case (Cons x xs)
  from Cons.prems(1) obtain fs1 where mk: "mkdirSync (path_join agelumPath [x]) fs = Inr fs1"
    and rest: "mkdir_each agelumPath xs fs1 = (fs', None)"
    by (auto split: sum.splits)
  show ?case
  proof (cases "d = x")
    case True
    with Cons.prems(3) have "fs1 q = Some Dir" using mkdirSync_made [OF mk] by simp
    then show ?thesis using mkdir_each_keeps [OF rest] by simp
  next
    case False
    with Cons.prems(2) have "d \<in> set xs" by simp
    then show ?thesis using Cons.IH [OF rest _ Cons.prems(3)] by simp
  qed
qed

lemma ensureAgelumStructure_Inr:
  assumes "ensureAgelumStructure repoPath fs = (fs1, Inr agelumPath)"
  shows "agelumPath = getAgelumPath repoPath"
    and "fs p \<noteq> None \<Longrightarrow> fs1 p = fs p"
    and "file_content fs1 p = file_content fs p"
    and "prefix q (path_join agelumPath [''tasks'', state_name st]) \<Longrightarrow> fs1 q = Some Dir"
proof -
  from assms obtain fs0 where mk: "mkdirSync (getAgelumPath repoPath) fs = Inr fs0"
    and each: "mkdir_each (getAgelumPath repoPath) AGELUM_STRUCTURE fs0 = (fs1, None)"
    and ap: "agelumPath = getAgelumPath repoPath"
    by (auto simp: ensureAgelumStructure_def Let_def split: sum.splits prod.splits option.splits)
  show "agelumPath = getAgelumPath repoPath" by (rule ap)
  show "fs1 p = fs p" if "fs p \<noteq> None"
    using that mkdirSync_keeps [OF mk, of p] mkdir_each_keeps [OF each] by simp
  show "file_content fs1 p = file_content fs p"
    using mkdirSync_file_content [OF mk, of p] mkdir_each_keeps [OF each] by simp
  show "fs1 q = Some Dir" if q: "prefix q (path_join agelumPath [''tasks'', state_name st])"
  proof -
    have "path_join agelumPath [''tasks'', state_name st] =
        path_join agelumPath [''tasks/'' @ state_name st]"
      by (cases st) (simp_all add: path_join_def)
    moreover have "''tasks/'' @ state_name st \<in> set AGELUM_STRUCTURE"
      by (cases st) (simp_all add: AGELUM_STRUCTURE_def)
    ultimately show ?thesis
      using mkdir_each_made [OF each, of "''tasks/'' @ state_name st" q] q ap by simp
  qed
qed

lemma call_tool_no_root:
  "findRepoRootPath cwd globalConfigRoot fs = None \<Longrightarrow>
     call_tool fmt now cwd globalConfigRoot fs req = (fs, Inl RootNotFound)"
  by (simp add: call_tool_def)

lemma call_tool_no_structure:
  "findRepoRootPath cwd globalConfigRoot fs = Some r \<Longrightarrow>
   ensureAgelumStructure r fs = (fs1, Inl e) \<Longrightarrow>
     call_tool fmt now cwd globalConfigRoot fs req = (fs1, Inl (FsError e))"
  by (simp add: call_tool_def)

lemma call_tool_cases:
  obtains (no_root) "findRepoRootPath cwd globalConfigRoot fs = None"
  | (no_structure) r fs1 e where "findRepoRootPath cwd globalConfigRoot fs = Some r"
      and "ensureAgelumStructure r fs = (fs1, Inl e)"
  | (ready) r fs1 agelumPath where "findRepoRootPath cwd globalConfigRoot fs = Some r"
      and "ensureAgelumStructure r fs = (fs1, Inr agelumPath)"
proof (cases "findRepoRootPath cwd globalConfigRoot fs")
  case None
  then show ?thesis by (rule no_root)
next
  case (Some r)
  obtain fs1 x where x: "ensureAgelumStructure r fs = (fs1, x)" by (cases "ensureAgelumStructure r fs")
  show ?thesis
  proof (cases x)
    case (Inl e) with Some x show ?thesis using no_structure by simp
  next
    case (Inr ap) with Some x show ?thesis using ready by simp
  qed
qed

subsection \<open>The transition check of move\<close>

lemma move_case_ready:
  assumes "ensureAgelumStructure r fs = (fs1, Inr agelumPath)"
    and "mv_fromState a \<noteq> mv_toState a" and "move_sourceFileName fmt a = Inr n"
    and "existsSync fs1 (path_join (path_join agelumPath [''tasks'', state_name (mv_fromState a)]) [n])"
    and "\<not> existsSync fs1 (path_join (path_join agelumPath [''tasks'', state_name (mv_toState a)]) [n])"
    and "renameSync (path_join (path_join agelumPath [''tasks'', state_name (mv_fromState a)]) [n])
           (path_join (path_join agelumPath [''tasks'', state_name (mv_toState a)]) [n]) fs1 = Inr fs2"
  shows "move_case fmt agelumPath fs1 a =
           (fs2, Inr (MoveResult
              (path_join (path_join agelumPath [''tasks'', state_name (mv_fromState a)]) [n])
              (path_join (path_join agelumPath [''tasks'', state_name (mv_toState a)]) [n])))"
proof -
  have "mkdirSync (path_join agelumPath [''tasks'', state_name (mv_toState a)]) fs1 = Inr fs1"
    using ensureAgelumStructure_Inr(4) [OF assms(1)] by (intro mkdirSync_idem) simp
  with assms(2-6) show ?thesis by (simp add: move_case_def Let_def)
qed

text \<open>
  C3. Every call begins with the search for the repository root and the making of the
  directories, so a \<open>move\<close> answers \<open>InvalidTransition\<close> exactly when that prologue has
  succeeded and \<open>fromState\<close> and \<open>toState\<close> are equal. After the prologue, with equal
  states that is the answer whatever the file system holds, and the file system is
  returned as the prologue left it: the check comes before the source and target paths
  are looked at. With two distinct states, whatever their order, the move goes through
  as soon as the source exists, nothing is at the target path and the rename succeeds.
\<close>

theorem move_InvalidTransition:
  "(snd (call_tool fmt now cwd globalConfigRoot fs (Move a)) = Inl InvalidTransition \<longleftrightarrow>
      mv_fromState a = mv_toState a \<and>
      (\<exists>r fs1 agelumPath. findRepoRootPath cwd globalConfigRoot fs = Some r \<and>
         ensureAgelumStructure r fs = (fs1, Inr agelumPath))) \<and>
   (findRepoRootPath cwd globalConfigRoot fs = Some r \<and>
    ensureAgelumStructure r fs = (fs1, Inr agelumPath) \<longrightarrow>
      (mv_fromState a = mv_toState a \<longrightarrow>
         call_tool fmt now cwd globalConfigRoot fs (Move a) = (fs1, Inl InvalidTransition)) \<and>
      (mv_fromState a \<noteq> mv_toState a \<and> move_sourceFileName fmt a = Inr n \<and>
       existsSync fs1
         (path_join (path_join agelumPath [''tasks'', state_name (mv_fromState a)]) [n]) \<and>
       \<not> existsSync fs1
         (path_join (path_join agelumPath [''tasks'', state_name (mv_toState a)]) [n]) \<and>
       renameSync (path_join (path_join agelumPath [''tasks'', state_name (mv_fromState a)]) [n])
         (path_join (path_join agelumPath [''tasks'', state_name (mv_toState a)]) [n]) fs1 =
         Inr fs2 \<longrightarrow>
         call_tool fmt now cwd globalConfigRoot fs (Move a) =
           (fs2, Inr (MoveResult
              (path_join (path_join agelumPath [''tasks'', state_name (mv_fromState a)]) [n])
              (path_join (path_join agelumPath [''tasks'', state_name (mv_toState a)]) [n])))))"
proof (intro conjI impI)
  show "snd (call_tool fmt now cwd globalConfigRoot fs (Move a)) = Inl InvalidTransition \<longleftrightarrow>
      mv_fromState a = mv_toState a \<and>
      (\<exists>r fs1 agelumPath. findRepoRootPath cwd globalConfigRoot fs = Some r \<and>
         ensureAgelumStructure r fs = (fs1, Inr agelumPath))"
  proof (cases rule: call_tool_cases [of cwd globalConfigRoot fs])
    case no_root
    then show ?thesis by (simp add: call_tool_no_root)
  next
    case (no_structure r fs1 e)
    then show ?thesis by (simp add: call_tool_no_structure)
  next
    case (ready r fs1 agelumPath)
    then have "call_tool fmt now cwd globalConfigRoot fs (Move a) = move_case fmt agelumPath fs1 a"
      by (rule call_tool_after_prologue)
    then show ?thesis
      using ready move_case_distinct [of a fmt agelumPath fs1]
        move_case_same_state [of a fmt agelumPath fs1]
      by auto
  qed
next
  assume h: "findRepoRootPath cwd globalConfigRoot fs = Some r \<and>
    ensureAgelumStructure r fs = (fs1, Inr agelumPath)"
  then have ct: "call_tool fmt now cwd globalConfigRoot fs (Move a) = move_case fmt agelumPath fs1 a"
    using call_tool_after_prologue(2) by blast
  assume "mv_fromState a = mv_toState a"
  then show "call_tool fmt now cwd globalConfigRoot fs (Move a) = (fs1, Inl InvalidTransition)"
    by (simp add: ct move_case_same_state)
next
  assume h: "findRepoRootPath cwd globalConfigRoot fs = Some r \<and>
    ensureAgelumStructure r fs = (fs1, Inr agelumPath)"
  then have ct: "call_tool fmt now cwd globalConfigRoot fs (Move a) = move_case fmt agelumPath fs1 a"
    using call_tool_after_prologue(2) by blast
  assume "mv_fromState a \<noteq> mv_toState a \<and> move_sourceFileName fmt a = Inr n \<and>
       existsSync fs1
         (path_join (path_join agelumPath [''tasks'', state_name (mv_fromState a)]) [n]) \<and>
       \<not> existsSync fs1
         (path_join (path_join agelumPath [''tasks'', state_name (mv_toState a)]) [n]) \<and>
       renameSync (path_join (path_join agelumPath [''tasks'', state_name (mv_fromState a)]) [n])
         (path_join (path_join agelumPath [''tasks'', state_name (mv_toState a)]) [n]) fs1 =
         Inr fs2"
  then show "call_tool fmt now cwd globalConfigRoot fs (Move a) =
           (fs2, Inr (MoveResult
              (path_join (path_join agelumPath [''tasks'', state_name (mv_fromState a)]) [n])
              (path_join (path_join agelumPath [''tasks'', state_name (mv_toState a)]) [n])))"
    using h move_case_ready [where r = r and fs = fs and ?fs1.0 = fs1 and ?fs2.0 = fs2
        and fmt = fmt and n = n and a = a and agelumPath = agelumPath]
    by (simp add: ct)
qed

lemma example_root: "findRepoRootPath [''repo''] None example_fs = Some [''repo'']"
  unfolding example_fs_def by code_simp

lemma example_ready_path: "snd (ensureAgelumStructure [''repo''] example_fs) = Inr [''repo'', ''agelum'']"
  unfolding example_fs_def by code_simp

lemma example_prologue:
  "ensureAgelumStructure [''repo''] example_fs = (example_ready, Inr [''repo'', ''agelum''])"
  using example_ready_path by (simp add: example_ready_def prod_eq_iff)

lemma example_ready_at:
  "existsSync example_ready [''repo'', ''agelum'', ''tasks'', ''done'', ''03 Fix bug (5).md'']"
  "\<not> existsSync example_ready [''repo'', ''agelum'', ''tasks'', ''pending'', ''03 Fix bug (5).md'']"
  "\<not> isl (renameSync [''repo'', ''agelum'', ''tasks'', ''done'', ''03 Fix bug (5).md'']
            [''repo'', ''agelum'', ''tasks'', ''pending'', ''03 Fix bug (5).md''] example_ready)"
  unfolding example_ready_def example_fs_def by code_simp+

lemma example_paths_ready:
  "path_join (path_join [''repo'', ''agelum''] [''tasks'', ''done'']) [''03 Fix bug (5).md''] =
     [''repo'', ''agelum'', ''tasks'', ''done'', ''03 Fix bug (5).md'']"
  "path_join (path_join [''repo'', ''agelum''] [''tasks'', ''pending'']) [''03 Fix bug (5).md''] =
     [''repo'', ''agelum'', ''tasks'', ''pending'', ''03 Fix bug (5).md'']"
  by (simp_all add: path_join_def push_segment_def)

theorem move_InvalidTransition_witness:
  "call_tool fmt_unused example_now [''repo''] None example_fs (Move (example_move Pending Pending)) =
     (example_ready, Inl InvalidTransition) \<and>
   snd (call_tool fmt_unused example_now [''repo''] None example_fs
          (Move (example_move Done Pending))) =
     Inr (MoveResult [''repo'', ''agelum'', ''tasks'', ''done'', ''03 Fix bug (5).md'']
            [''repo'', ''agelum'', ''tasks'', ''pending'', ''03 Fix bug (5).md''])"
proof
  show "call_tool fmt_unused example_now [''repo''] None example_fs
      (Move (example_move Pending Pending)) = (example_ready, Inl InvalidTransition)"
    using move_InvalidTransition [where cwd = "[''repo'']" and globalConfigRoot = None
        and fs = example_fs and r = "[''repo'']" and ?fs1.0 = example_ready
        and agelumPath = "[''repo'', ''agelum'']" and a = "example_move Pending Pending"
        and fmt = fmt_unused and now = example_now]
      example_root example_prologue
    by (simp add: example_move_def)
next
  let ?src = "[''repo'', ''agelum'', ''tasks'', ''done'', ''03 Fix bug (5).md'']"
  let ?dst = "[''repo'', ''agelum'', ''tasks'', ''pending'', ''03 Fix bug (5).md'']"
  obtain fs2 where rn: "renameSync ?src ?dst example_ready = Inr fs2"
    using example_ready_at(3) by (cases "renameSync ?src ?dst example_ready") auto
  have st: "mv_fromState (example_move Done Pending) = Done"
    "mv_toState (example_move Done Pending) = Pending"
    by (simp_all add: example_move_def)
  show "snd (call_tool fmt_unused example_now [''repo''] None example_fs
          (Move (example_move Done Pending))) = Inr (MoveResult ?src ?dst)"
    using move_InvalidTransition [where cwd = "[''repo'']" and globalConfigRoot = None
        and fs = example_fs and r = "[''repo'']" and ?fs1.0 = example_ready
        and agelumPath = "[''repo'', ''agelum'']" and a = "example_move Done Pending"
        and fmt = fmt_unused and now = example_now and n = "''03 Fix bug (5).md''"
        and ?fs2.0 = fs2]
      example_root example_prologue example_move_name [of Done Pending] example_ready_at(1,2) rn
    by (simp add: st example_paths_ready)
qed

text \<open>
  The claim as it was made fails where the prologue does. From a working directory with
  no \<open>.git\<close> within ten levels and no hint, a \<open>move\<close> with equal states answers
  \<open>RootNotFound\<close>. In a repository that has no \<open>agelum\<close> directory yet, a \<open>move\<close> with
  equal states answers \<open>InvalidTransition\<close> after it has made \<open>agelum/docs\<close>.
\<close>

theorem move_InvalidTransition_prologue:
  "mv_fromState (example_move Pending Pending) = mv_toState (example_move Pending Pending) \<and>
   snd (call_tool fmt_unused example_now example_deep None example_fs
          (Move (example_move Pending Pending))) = Inl RootNotFound \<and>
   snd (call_tool fmt_unused example_now [''repo''] None example_bare_fs
          (Move (example_move Pending Pending))) = Inl InvalidTransition \<and>
   example_bare_fs [''repo'', ''agelum'', ''docs''] = None \<and>
   fst (call_tool fmt_unused example_now [''repo''] None example_bare_fs
          (Move (example_move Pending Pending))) [''repo'', ''agelum'', ''docs''] = Some Dir"
  unfolding example_move_def example_now_def example_deep_def example_fs_def example_bare_fs_def
  by code_simp

subsection \<open>What a successful move changes\<close>

text \<open>
  C9. A successful \<open>move\<close> answers the source path under the \<open>fromState\<close> directory and
  the target path under the \<open>toState\<close> directory of the repository that was found, both
  built from the one resolved file name, and nothing was at the target path. When a
  regular file was at the source path, afterwards the target path holds that file with
  the content it had, nothing is at the source path, and every other path has the
  regular file it had before, or none as before; whatever existed elsewhere is
  unchanged. (The only other change is that directories of the taxonomy may have been
  made.)
\<close>

theorem move_relocates:
  assumes "call_tool fmt now cwd globalConfigRoot fs (Move a) = (fs', Inr r)"
  shows "\<exists>repo n src dst.
           findRepoRootPath cwd globalConfigRoot fs = Some repo \<and>
           move_sourceFileName fmt a = Inr n \<and>
           src = path_join (path_join (getAgelumPath repo)
                   [''tasks'', state_name (mv_fromState a)]) [n] \<and>
           dst = path_join (path_join (getAgelumPath repo)
                   [''tasks'', state_name (mv_toState a)]) [n] \<and>
           r = MoveResult src dst \<and> \<not> existsSync fs dst \<and>
           (\<forall>c. fs src = Some (File c) \<longrightarrow>
              fs' dst = Some (File c) \<and> fs' src = None \<and>
              (\<forall>p. p \<noteq> src \<and> p \<noteq> dst \<longrightarrow>
                 file_content fs' p = file_content fs p \<and> (existsSync fs p \<longrightarrow> fs' p = fs p)))"
proof (cases rule: call_tool_cases [of cwd globalConfigRoot fs])
  case no_root
  with assms show ?thesis by (simp add: call_tool_no_root)
next
  case (no_structure repo fs1 e)
  with assms show ?thesis by (simp add: call_tool_no_structure)
next
  case (ready repo fs1 agelumPath)
  note pro = ensureAgelumStructure_Inr [OF ready(2)]
  have "move_case fmt agelumPath fs1 a = (fs', Inr r)"
    using assms call_tool_after_prologue(2) [OF ready] by simp
  from move_case_relocates [OF this] obtain n src dst where
    n: "move_sourceFileName fmt a = Inr n"
    and src: "src = path_join (path_join agelumPath [''tasks'', state_name (mv_fromState a)]) [n]"
    and dst: "dst = path_join (path_join agelumPath [''tasks'', state_name (mv_toState a)]) [n]"
    and r: "r = MoveResult src dst" and free1: "\<not> existsSync fs1 dst"
    and fr: "\<forall>c. fs1 src = Some (File c) \<longrightarrow>
              fs' dst = Some (File c) \<and> fs' src = None \<and>
              (\<forall>p. p \<noteq> src \<and> p \<noteq> dst \<longrightarrow>
                 file_content fs' p = file_content fs1 p \<and> (existsSync fs1 p \<longrightarrow> fs' p = fs1 p))"
    by blast
  have keep: "fs1 p = fs p" if "existsSync fs p" for p
    using that pro(2) [of p] by (simp add: existsSync_def)
  have free: "\<not> existsSync fs dst"
  proof
    assume e: "existsSync fs dst"
    then have "fs1 dst = fs dst" by (rule keep)
    with e free1 show False by (simp add: existsSync_def)
  qed
  have frame: "fs' dst = Some (File c) \<and> fs' src = None \<and>
      (\<forall>p. p \<noteq> src \<and> p \<noteq> dst \<longrightarrow>
         file_content fs' p = file_content fs p \<and> (existsSync fs p \<longrightarrow> fs' p = fs p))"
    if c: "fs src = Some (File c)" for c
  proof -
    have "fs1 src = Some (File c)" using keep [of src] c by (simp add: existsSync_def)
    with fr have "fs' dst = Some (File c)" and "fs' src = None"
      and other: "\<forall>p. p \<noteq> src \<and> p \<noteq> dst \<longrightarrow>
                 file_content fs' p = file_content fs1 p \<and> (existsSync fs1 p \<longrightarrow> fs' p = fs1 p)"
      by blast+
    moreover have "file_content fs' p = file_content fs p \<and> (existsSync fs p \<longrightarrow> fs' p = fs p)"
      if "p \<noteq> src \<and> p \<noteq> dst" for p
      using other that pro(3) [of p] keep [of p] by (auto simp: existsSync_def)
    ultimately show ?thesis by blast
  qed
  show ?thesis
    using ready(1) n src dst r free frame pro(1) by blast
qed

text \<open>
  The claim as it was made fails for a directory at the source path, which the handler
  does not tell from a file: the directory \<open>bundle.md\<close> in \<open>pending\<close> is moved with the
  file \<open>inner.txt\<close> below it, which so leaves one path and appears at another.
\<close>

theorem move_relocates_directory:
  "snd (call_tool fmt_unused example_now [''repo''] None example_dir_fs (Move example_move_bundle)) =
     Inr (MoveResult [''repo'', ''agelum'', ''tasks'', ''pending'', ''bundle.md'']
            [''repo'', ''agelum'', ''tasks'', ''doing'', ''bundle.md'']) \<and>
   example_dir_fs [''repo'', ''agelum'', ''tasks'', ''pending'', ''bundle.md'', ''inner.txt''] =
     Some (File ''inner'') \<and>
   fst (call_tool fmt_unused example_now [''repo''] None example_dir_fs (Move example_move_bundle))
     [''repo'', ''agelum'', ''tasks'', ''pending'', ''bundle.md'', ''inner.txt''] = None \<and>
   example_dir_fs [''repo'', ''agelum'', ''tasks'', ''doing'', ''bundle.md'', ''inner.txt''] = None \<and>
   fst (call_tool fmt_unused example_now [''repo''] None example_dir_fs (Move example_move_bundle))
     [''repo'', ''agelum'', ''tasks'', ''doing'', ''bundle.md'', ''inner.txt''] =
     Some (File ''inner'')"
  unfolding example_move_bundle_def example_now_def example_dir_fs_def example_fs_def
  by code_simp

lemma example_call_move:
  "snd (call_tool fmt_unused example_now [''repo''] None example_fs
          (Move (example_move Done Pending))) =
     Inr (MoveResult [''repo'', ''agelum'', ''tasks'', ''done'', ''03 Fix bug (5).md'']
            [''repo'', ''agelum'', ''tasks'', ''pending'', ''03 Fix bug (5).md''])"
  unfolding example_move_def example_now_def example_fs_def by code_simp

theorem move_relocates_witness:
  "fst (call_tool fmt_unused example_now [''repo''] None example_fs (Move (example_move Done Pending)))
     [''repo'', ''agelum'', ''tasks'', ''pending'', ''03 Fix bug (5).md''] = Some (File ''text'') \<and>
   fst (call_tool fmt_unused example_now [''repo''] None example_fs (Move (example_move Done Pending)))
     [''repo'', ''agelum'', ''tasks'', ''done'', ''03 Fix bug (5).md''] = None \<and>
   fst (call_tool fmt_unused example_now [''repo''] None example_fs (Move (example_move Done Pending)))
     [''repo'', ''.git''] = Some Dir"
proof -
  let ?call = "call_tool fmt_unused example_now [''repo''] None example_fs
    (Move (example_move Done Pending))"
  have call: "?call = (fst ?call,
      Inr (MoveResult [''repo'', ''agelum'', ''tasks'', ''done'', ''03 Fix bug (5).md'']
             [''repo'', ''agelum'', ''tasks'', ''pending'', ''03 Fix bug (5).md'']))"
    using example_call_move by (simp add: prod_eq_iff)
  have at: "example_fs [''repo'', ''agelum'', ''tasks'', ''done'', ''03 Fix bug (5).md''] =
      Some (File ''text'')"
    and git: "example_fs [''repo'', ''.git''] = Some Dir"
    by (simp_all add: example_fs_def)
  from move_relocates [OF call] obtain s d where
    r: "MoveResult [''repo'', ''agelum'', ''tasks'', ''done'', ''03 Fix bug (5).md'']
          [''repo'', ''agelum'', ''tasks'', ''pending'', ''03 Fix bug (5).md''] = MoveResult s d"
    and fr: "\<forall>c. example_fs s = Some (File c) \<longrightarrow>
              fst ?call d = Some (File c) \<and> fst ?call s = None \<and>
              (\<forall>p. p \<noteq> s \<and> p \<noteq> d \<longrightarrow>
                 file_content (fst ?call) p = file_content example_fs p \<and>
                 (existsSync example_fs p \<longrightarrow> fst ?call p = example_fs p))"
    by blast
  from r have s: "s = [''repo'', ''agelum'', ''tasks'', ''done'', ''03 Fix bug (5).md'']"
    and d: "d = [''repo'', ''agelum'', ''tasks'', ''pending'', ''03 Fix bug (5).md'']"
    by simp_all
  from fr at have "fst ?call d = Some (File ''text'')" and "fst ?call s = None"
    and "\<forall>p. p \<noteq> s \<and> p \<noteq> d \<longrightarrow> (existsSync example_fs p \<longrightarrow> fst ?call p = example_fs p)"
    by (simp_all add: s)
  then show ?thesis using git by (simp add: s d existsSync_def)
qed

subsection \<open>create with an explicit file name and no numbers\<close>

lemma split_on_line: "d \<notin> set xs \<Longrightarrow> split_on d (xs @ d # ys) = xs # split_on d ys"
proof (induction xs)
  case Nil
  show ?case by simp
next
  case (Cons x xs)
  then show ?case by (cases "split_on d ys") auto
qed

lemma split_on_six_lines:
  assumes "d \<notin> set l1" and "d \<notin> set l2" and "d \<notin> set l3" and "d \<notin> set l4"
    and "d \<notin> set l5" and "d \<notin> set l6"
  shows "split_on d (l1 @ [d] @ l2 @ [d] @ l3 @ [d] @ l4 @ [d] @ l5 @ [d] @ l6 @ [d]) =
           [l1, l2, l3, l4, l5, l6, []]"
  using assms by (simp add: split_on_line)

lemma buildFrontmatter_task_text:
  "buildFrontmatter fmt now Task title (Some st) None None =
     Inr (''---\<newline>title: '' @ title @ ''\<newline>created: '' @ now @
          ''\<newline>type: task\<newline>state: '' @ state_name st @ ''\<newline>---\<newline>'')"
  by (simp add: buildFrontmatter_def)

lemma create_case_explicit:
  assumes "cr_type a = Task" and "cr_fileName a = Some f"
    and "cr_priority a = None" and "cr_storyPoints a = None"
    and "mkdirSync (path_join agelumPath [''tasks'', state_name (or_default (cr_state a) Pending)]) fs
           = Inr fs1"
  shows "create_case fmt now agelumPath fs a =
           (let st = state_name (or_default (cr_state a) Pending);
                p = path_join agelumPath [''tasks'', st] @
                      [ensureMdExtension (sanitizeFileNamePart f)];
                frontmatter = ''---\<newline>title: '' @ cr_title a @ ''\<newline>created: '' @ now @
                              ''\<newline>type: task\<newline>state: '' @ st @ ''\<newline>---\<newline>'';
                body = ''\<newline># '' @ cr_title a @ ''\<newline>\<newline>'' @
                       or_default (cr_content a) [] @ ''\<newline>''
            in if existsSync fs1 p then (fs1, Inl (AlreadyExists p))
               else (case writeFileSync p (frontmatter @ body) fs1 of
                       Inl e \<Rightarrow> (fs1, Inl (FsError e))
                     | Inr fs2 \<Rightarrow> (fs2, Inr (CreateResult p))))"
  using assms
  by (simp add: create_case_def Let_def create_resolvedFileName_explicit create_path
      buildFrontmatter_task_text create_body_def)

text \<open>
  C10. For a task with an explicit file name and neither priority nor story points, the
  derivation of the file name, which would fail for want of a priority, is not run.
  Once the root is found and the directories are made, the call answers
  \<open>AlreadyExists\<close> when something is at the target path, the error of the write when the
  write fails (as for a name that is too long), and otherwise succeeds: no requirement
  on priority or story points is enforced. The file of a successful call holds the
  front matter and the body written out below. When neither the title nor the time
  stamp has a line feed, the lines of the front matter are the dashed line, title,
  created, type, state and the dashed line, and none of them is a priority or story
  points line.
\<close>

theorem create_explicit_fileName:
  assumes "cr_type a = Task" and "cr_fileName a = Some f"
    and "cr_priority a = None" and "cr_storyPoints a = None"
    and "findRepoRootPath cwd globalConfigRoot fs = Some repo"
    and "ensureAgelumStructure repo fs = (fs1, Inr agelumPath)"
  shows "let st = state_name (or_default (cr_state a) Pending);
             p = path_join agelumPath [''tasks'', st] @
                   [ensureMdExtension (sanitizeFileNamePart f)];
             frontmatter = ''---\<newline>title: '' @ cr_title a @ ''\<newline>created: '' @ now @
                           ''\<newline>type: task\<newline>state: '' @ st @ ''\<newline>---\<newline>'';
             body = ''\<newline># '' @ cr_title a @ ''\<newline>\<newline>'' @
                    or_default (cr_content a) [] @ ''\<newline>''
         in (buildFileName fmt (cr_type a) (cr_title a) (cr_priority a) (cr_storyPoints a) =
               Inl InvalidTitle \<or>
             buildFileName fmt (cr_type a) (cr_title a) (cr_priority a) (cr_storyPoints a) =
               Inl PriorityRequired) \<and>
            call_tool fmt now cwd globalConfigRoot fs (Create a) =
              (if existsSync fs1 p then (fs1, Inl (AlreadyExists p))
               else (case writeFileSync p (frontmatter @ body) fs1 of
                       Inl e \<Rightarrow> (fs1, Inl (FsError e))
                     | Inr fs2 \<Rightarrow> (fs2, Inr (CreateResult p)))) \<and>
            (\<forall>fs' r. call_tool fmt now cwd globalConfigRoot fs (Create a) = (fs', Inr r) \<longrightarrow>
               r = CreateResult p \<and> fs' p = Some (File (frontmatter @ body))) \<and>
            (CHR 0x0A \<notin> set (cr_title a) \<and> CHR 0x0A \<notin> set now \<longrightarrow>
               split_on (CHR 0x0A) frontmatter =
                 [''---'', ''title: '' @ cr_title a, ''created: '' @ now, ''type: task'',
                  ''state: '' @ st, ''---'', []] \<and>
               (\<forall>l \<in> set (split_on (CHR 0x0A) frontmatter).
                  \<not> prefix ''priority:'' l \<and> \<not> prefix ''storyPoints:'' l))"
proof -
  define st where "st = state_name (or_default (cr_state a) Pending)"
  define p where "p = path_join agelumPath [''tasks'', st] @
    [ensureMdExtension (sanitizeFileNamePart f)]"
  define frontmatter where "frontmatter = ''---\<newline>title: '' @ cr_title a @
    ''\<newline>created: '' @ now @ ''\<newline>type: task\<newline>state: '' @ st @ ''\<newline>---\<newline>''"
  define body where "body = ''\<newline># '' @ cr_title a @ ''\<newline>\<newline>'' @
    or_default (cr_content a) [] @ ''\<newline>''"
  have derive: "buildFileName fmt (cr_type a) (cr_title a) (cr_priority a) (cr_storyPoints a) =
        Inl InvalidTitle \<or>
      buildFileName fmt (cr_type a) (cr_title a) (cr_priority a) (cr_storyPoints a) =
        Inl PriorityRequired"
    using buildFileName_task_bare [of fmt "cr_title a" "cr_storyPoints a"] assms(1,3) by simp
  have "mkdirSync (path_join agelumPath [''tasks'', state_name (or_default (cr_state a) Pending)]) fs1
      = Inr fs1"
    using ensureAgelumStructure_Inr(4) [OF assms(6)] by (intro mkdirSync_idem) simp
  from create_case_explicit [OF assms(1-4) this, of fmt now]
  have "create_case fmt now agelumPath fs1 a =
      (if existsSync fs1 p then (fs1, Inl (AlreadyExists p))
       else (case writeFileSync p (frontmatter @ body) fs1 of
               Inl e \<Rightarrow> (fs1, Inl (FsError e))
             | Inr fs2 \<Rightarrow> (fs2, Inr (CreateResult p))))"
    by (simp only: Let_def st_def p_def frontmatter_def body_def)
  then have call: "call_tool fmt now cwd globalConfigRoot fs (Create a) =
      (if existsSync fs1 p then (fs1, Inl (AlreadyExists p))
       else (case writeFileSync p (frontmatter @ body) fs1 of
               Inl e \<Rightarrow> (fs1, Inl (FsError e))
             | Inr fs2 \<Rightarrow> (fs2, Inr (CreateResult p))))"
    by (simp only: call_tool_after_prologue(1) [OF assms(5,6)])
  have written: "r = CreateResult p \<and> fs' p = Some (File (frontmatter @ body))"
    if "call_tool fmt now cwd globalConfigRoot fs (Create a) = (fs', Inr r)" for fs' r
  proof -
    from that call obtain fs2 where "writeFileSync p (frontmatter @ body) fs1 = Inr fs2"
      and "fs' = fs2" and "r = CreateResult p"
      by (auto split: if_splits sum.splits)
    then show ?thesis using writeFileSync_result [of p "frontmatter @ body" fs1 fs2] by simp
  qed
  have lines: "split_on (CHR 0x0A) frontmatter =
        [''---'', ''title: '' @ cr_title a, ''created: '' @ now, ''type: task'',
         ''state: '' @ st, ''---'', []] \<and>
      (\<forall>l \<in> set (split_on (CHR 0x0A) frontmatter).
         \<not> prefix ''priority:'' l \<and> \<not> prefix ''storyPoints:'' l)"
    if "CHR 0x0A \<notin> set (cr_title a) \<and> CHR 0x0A \<notin> set now"
  proof -
    have "CHR 0x0A \<notin> set st" by (cases "or_default (cr_state a) Pending") (simp_all add: st_def)
    with that have "split_on (CHR 0x0A) frontmatter =
        [''---'', ''title: '' @ cr_title a, ''created: '' @ now, ''type: task'',
         ''state: '' @ st, ''---'', []]"
      using split_on_six_lines [of "CHR 0x0A" "''---''" "''title: '' @ cr_title a"
          "''created: '' @ now" "''type: task''" "''state: '' @ st" "''---''"]
      by (simp add: frontmatter_def)
    then show ?thesis by simp
  qed
  show ?thesis
    using derive call written lines
    unfolding Let_def st_def [symmetric] p_def [symmetric] frontmatter_def [symmetric]
      body_def [symmetric]
    by blast
qed

lemma example_call_create_named:
  "snd (call_tool fmt_unused example_now [''repo''] None example_fs (Create example_create_named)) =
     Inr (CreateResult [''repo'', ''agelum'', ''tasks'', ''pending'', ''notes.md''])"
  unfolding example_create_named_def example_now_def example_fs_def by code_simp

theorem create_explicit_fileName_witness:
  "snd (call_tool fmt_unused example_now [''repo''] None example_fs (Create example_create_named)) =
     Inr (CreateResult [''repo'', ''agelum'', ''tasks'', ''pending'', ''notes.md'']) \<and>
   fst (call_tool fmt_unused example_now [''repo''] None example_fs (Create example_create_named))
     [''repo'', ''agelum'', ''tasks'', ''pending'', ''notes.md''] =
     Some (File (''---\<newline>title: Fix bug\<newline>created: 2026-01-01T00:00:00.000Z\<newline>type: task\<newline>state: pending\<newline>---\<newline>'' @
                 ''\<newline># Fix bug\<newline>\<newline>\<newline>'')) \<and>
   split_on (CHR 0x0A)
     ''---\<newline>title: Fix bug\<newline>created: 2026-01-01T00:00:00.000Z\<newline>type: task\<newline>state: pending\<newline>---\<newline>'' =
     [''---'', ''title: Fix bug'', ''created: 2026-01-01T00:00:00.000Z'', ''type: task'',
      ''state: pending'', ''---'', []]"
proof -
  let ?call = "call_tool fmt_unused example_now [''repo''] None example_fs
    (Create example_create_named)"
  have a: "cr_type example_create_named = Task" "cr_fileName example_create_named = Some ''notes''"
    "cr_priority example_create_named = None" "cr_storyPoints example_create_named = None"
    by (simp_all add: example_create_named_def)
  have b: "cr_state example_create_named = None" "cr_title example_create_named = ''Fix bug''"
    "cr_content example_create_named = None"
    by (simp_all add: example_create_named_def)
  have call: "?call =
      (fst ?call, Inr (CreateResult [''repo'', ''agelum'', ''tasks'', ''pending'', ''notes.md'']))"
    using example_call_create_named by (simp add: prod_eq_iff)
  have dir: "path_join [''repo'', ''agelum''] [''tasks'', ''pending''] =
      [''repo'', ''agelum'', ''tasks'', ''pending'']"
    by (simp add: path_join_def push_segment_def)
  have nolf: "CHR 0x0A \<notin> set ''Fix bug''" "CHR 0x0A \<notin> set example_now"
    by (simp_all add: example_now_def)
  from create_explicit_fileName [OF a example_root example_prologue,
      where fmt = fmt_unused and now = example_now]
  have "fst ?call [''repo'', ''agelum'', ''tasks'', ''pending'', ''notes.md''] =
      Some (File (''---\<newline>title: Fix bug\<newline>created: '' @ example_now @
                  ''\<newline>type: task\<newline>state: pending\<newline>---\<newline>'' @
                  ''\<newline># Fix bug\<newline>\<newline>\<newline>''))"
    and "split_on (CHR 0x0A)
           (''---\<newline>title: Fix bug\<newline>created: '' @ example_now @
            ''\<newline>type: task\<newline>state: pending\<newline>---\<newline>'') =
         [''---'', ''title: Fix bug'', ''created: '' @ example_now, ''type: task'',
          ''state: pending'', ''---'', []]"
    using call nolf by (simp_all add: Let_def b or_default_def dir example_notes)
  then show ?thesis
    using example_call_create_named by (simp add: example_now_def)
qed

text \<open>
  The claim as it was made fails for a title with a line feed, which is written as it
  is: with the title \<open>Fix bug\<close>, line feed, \<open>priority: 99\<close> and no priority given, the
  front matter of the file has the line \<open>priority: 99\<close>.
\<close>

theorem create_explicit_fileName_injected:
  "cr_priority example_create_injected = None \<and> cr_storyPoints example_create_injected = None \<and>
   fst (call_tool fmt_unused example_now [''repo''] None example_fs
          (Create example_create_injected))
     [''repo'', ''agelum'', ''tasks'', ''pending'', ''notes.md''] =
     Some (File (''---\<newline>title: Fix bug\<newline>priority: 99\<newline>created: 2026-01-01T00:00:00.000Z\<newline>type: task\<newline>state: pending\<newline>---\<newline>'' @
                 ''\<newline># Fix bug\<newline>priority: 99\<newline>\<newline>\<newline>'')) \<and>
   split_on (CHR 0x0A)
     ''---\<newline>title: Fix bug\<newline>priority: 99\<newline>created: 2026-01-01T00:00:00.000Z\<newline>type: task\<newline>state: pending\<newline>---\<newline>'' =
     [''---'', ''title: Fix bug'', ''priority: 99'', ''created: 2026-01-01T00:00:00.000Z'',
      ''type: task'', ''state: pending'', ''---'', []]"
  unfolding example_create_injected_def example_now_def example_fs_def
  by code_simp

end
